theory Spec2Isabelle
  imports Complex_Main
begin

section \<open>Kibble-Zurek demo: job lifecycle and kink-density calculations\<close>

text \<open>
  A shallow embedding of the callbacks of \<^verbatim>\<open>app.py\<close> (\<^verbatim>\<open>simulate\<close>,
  \<^verbatim>\<open>alert_no_solver\<close>, the module initialisation) and of the helpers in
  \<^verbatim>\<open>helpers/qa.py\<close> and \<^verbatim>\<open>helpers/kz_calcs.py\<close>.
  A Python exception is a value \<open>Inl e\<close> of a sum type; \<^verbatim>\<open>dash.no_update\<close> is
  \<open>None\<close> in an output of option type; the collaborators that live outside the
  repository (the wall clock, the cloud API, the subgraph search) are fields of an
  environment record, so that every theorem holds for whatever they return.
\<close>

subsection \<open>Exceptions\<close>

datatype py_error =
    KeyError
  | IndexError
  | AttributeError
  | ValueError
  | TypeError
  | ResourceNotFoundError
  | OtherException

subsection \<open>Python string splitting\<close>

text \<open>
  \<^verbatim>\<open>str.split(sep)\<close> for a non-empty separator: the pieces between successive
  occurrences of \<open>sep\<close>, scanning from the left. \<open>acc\<close> holds the current piece,
  reversed.
\<close>

function py_split_aux :: "string \<Rightarrow> string \<Rightarrow> string \<Rightarrow> string list" where
  "py_split_aux sep acc s =
     (if s = [] then [rev acc]
      else if sep \<noteq> [] \<and> take (length sep) s = sep
        then rev acc # py_split_aux sep [] (drop (length sep) s)
      else py_split_aux sep (hd s # acc) (tl s))"
  by pat_completeness auto
termination
  by (relation "measure (\<lambda>(sep, acc, s). length s)") auto

declare py_split_aux.simps [simp del]

definition py_split :: "string \<Rightarrow> string \<Rightarrow> string list" where
  "py_split s sep = py_split_aux sep [] s"

subsection \<open>helpers/qa.py: embedding search and job status\<close>

type_synonym edge = "nat \<times> nat"

text \<open>An embedding \<^verbatim>\<open>{spin: (qubit,)}\<close> as an association list in the dict's order.\<close>

type_synonym embedding = "(nat \<times> nat list) list"

text \<open>
  \<^verbatim>\<open>minorminer.subgraph.find_subgraph\<close> is an external routine: it is a parameter,
  taking the ring's edges, the sampler's edges and the timeout, and either raising
  or returning a dict \<^verbatim>\<open>{spin: qubit}\<close>.
\<close>

type_synonym find_subgraph_fn = "edge list \<Rightarrow> edge list \<Rightarrow> nat \<Rightarrow> py_error + (nat \<times> nat) list"

definition ring_edges :: "nat \<Rightarrow> edge list" where
  "ring_edges spins = map (\<lambda>i. (i, (i + 1) mod spins)) [0..<spins]"

definition find_one_to_one_embedding ::
  "find_subgraph_fn \<Rightarrow> nat \<Rightarrow> edge list \<Rightarrow> nat \<Rightarrow> py_error + embedding" where
  "find_one_to_one_embedding find_subgraph spins sampler_edgelist timeout =
     (case find_subgraph (ring_edges spins) sampler_edgelist timeout of
        Inl e \<Rightarrow> Inl e
      | Inr emb_1to1 \<Rightarrow> Inr (map (\<lambda>(k, v). (k, [v])) emb_1to1))"

text \<open>
  What \<^verbatim>\<open>Problems.get_problem_status\<close> returns: the label of the problem (which
  may be absent) and the value of its status enumeration.
\<close>

record problem_status =
  label :: "string option"
  status_value :: string

text \<open>
  The module-level \<^verbatim>\<open>client\<close>: \<^verbatim>\<open>None\<close>, the string \<^verbatim>\<open>"dummy"\<close>, or a cloud
  client, of which only the status lookup by job id matters here.
\<close>

datatype client =
    NoClient
  | DummyClient
  | CloudClient "string \<Rightarrow> py_error + problem_status"

fun client_truthy :: "client \<Rightarrow> bool" where
  "client_truthy NoClient = False"
| "client_truthy DummyClient = True"
| "client_truthy (CloudClient _) = True"

text \<open>
  \<^verbatim>\<open>get_job_status\<close>. \<^verbatim>\<open>client.config\<close> is read before the \<^verbatim>\<open>try\<close>, so a client
  without that attribute raises. Inside the \<^verbatim>\<open>try\<close> only
  \<^verbatim>\<open>ResourceNotFoundError\<close> is caught; a missing label or a label without the
  separator raises through.
\<close>

definition get_job_status :: "client \<Rightarrow> string \<Rightarrow> string \<Rightarrow> py_error + string option" where
  "get_job_status cl job_id job_submit_time =
     (case cl of
        CloudClient get_problem_status \<Rightarrow>
          (case get_problem_status job_id of
             Inl e \<Rightarrow> (if e = ResourceNotFoundError then Inr None else Inl e)
           | Inr status \<Rightarrow>
               (case label status of
                  None \<Rightarrow> Inl AttributeError
                | Some l \<Rightarrow>
                    (case py_split l ''submitted: '' of
                       _ # label_time # _ \<Rightarrow>
                         (if label_time = job_submit_time
                          then Inr (Some (status_value status))
                          else Inr None)
                     | _ \<Rightarrow> Inl IndexError)))
      | _ \<Rightarrow> Inl AttributeError)"

subsection \<open>app.py: the simulate callback\<close>

datatype trigger = Btn_simulate | Wd_job

text \<open>
  The content of the \<^verbatim>\<open>embeddings_found\<close> store: a string (\<^verbatim>\<open>"needed"\<close>,
  \<^verbatim>\<open>"not found"\<close>, or anything else), a dict \<^verbatim>\<open>{spins: embedding}\<close>, or nothing.
\<close>

datatype store = Str string | Found nat embedding | Empty

text \<open>
  The seven outputs of \<^verbatim>\<open>simulate\<close>, in the order of the callback's
  \<^verbatim>\<open>Output\<close> list. \<open>None\<close> in the last three is \<^verbatim>\<open>dash.no_update\<close>.
\<close>

record simulate_out =
  btn_simulate_disabled :: bool
  wd_job_disabled :: bool
  wd_job_interval :: real
  wd_job_n_intervals :: nat
  job_submit_state_out :: "string option"
  job_submit_time_out :: "string option"
  embeddings_found_out :: "store option"

text \<open>
  What \<^verbatim>\<open>simulate\<close> reads beyond its arguments: the wall clock already formatted
  (\<^verbatim>\<open>datetime.datetime.now().strftime("%c")\<close>), the module-level \<^verbatim>\<open>qpus\<close>
  (sampler name to the sampler's edge list), the module-level \<^verbatim>\<open>client\<close>, and
  the external subgraph search.
\<close>

record env =
  now_c :: string
  qpus :: "string \<rightharpoonup> edge list"
  the_client :: client
  find_subgraph :: find_subgraph_fn

definition classical_name :: string where
  "classical_name = ''Diffusion [Classical]''"

text \<open>Python truthiness of the result of \<^verbatim>\<open>get_job_status\<close>.\<close>

fun status_truthy :: "string option \<Rightarrow> bool" where
  "status_truthy None = False"
| "status_truthy (Some s) = (s \<noteq> [])"

definition simulate ::
  "env \<Rightarrow> trigger \<Rightarrow> string \<Rightarrow> string \<Rightarrow> string \<Rightarrow> nat list \<Rightarrow> nat \<Rightarrow> string \<Rightarrow> store
     \<Rightarrow> py_error + simulate_out" where
  "simulate e triggered_id job_id job_submit_state job_submit_time
       cached_embedding_lengths spins qpu_name embeddings_found =
     (if triggered_id = Btn_simulate then
        (if spins \<in> set cached_embedding_lengths \<or> qpu_name = classical_name then
           Inr \<lparr>btn_simulate_disabled = True, wd_job_disabled = False,
                wd_job_interval = 0.5 * 1000, wd_job_n_intervals = 0,
                job_submit_state_out = Some ''SUBMITTED'',
                job_submit_time_out =
                  Some (if qpu_name = classical_name then ''SA'' else now_c e),
                embeddings_found_out = None\<rparr>
         else
           Inr \<lparr>btn_simulate_disabled = True, wd_job_disabled = False,
                wd_job_interval = 0.5 * 1000, wd_job_n_intervals = 0,
                job_submit_state_out = Some ''EMBEDDING'',
                job_submit_time_out = None,
                embeddings_found_out = Some (Str ''needed'')\<rparr>)
      else if job_submit_state = ''EMBEDDING'' then
        (if embeddings_found = Str ''needed'' then
           (case (case qpus e qpu_name of
                    None \<Rightarrow> Inl KeyError
                  | Some edges \<Rightarrow> find_one_to_one_embedding (find_subgraph e) spins edges 60) of
              Inr embedding \<Rightarrow>
                (if embedding \<noteq> [] then
                   Inr \<lparr>btn_simulate_disabled = True, wd_job_disabled = False,
                        wd_job_interval = 0.2 * 1000, wd_job_n_intervals = 0,
                        job_submit_state_out = Some ''EMBEDDING'',
                        job_submit_time_out = None,
                        embeddings_found_out = Some (Found spins embedding)\<rparr>
                 else
                   Inr \<lparr>btn_simulate_disabled = True, wd_job_disabled = False,
                        wd_job_interval = 0.2 * 1000, wd_job_n_intervals = 0,
                        job_submit_state_out = Some ''FAILED'',
                        job_submit_time_out = None,
                        embeddings_found_out = Some (Str ''not found'')\<rparr>)
            | Inl ex \<Rightarrow>
                Inr \<lparr>btn_simulate_disabled = True, wd_job_disabled = False,
                     wd_job_interval = 0.2 * 1000, wd_job_n_intervals = 0,
                     job_submit_state_out = Some ''FAILED'',
                     job_submit_time_out = None,
                     embeddings_found_out = Some (Str ''not found'')\<rparr>)
         else
           Inr \<lparr>btn_simulate_disabled = True, wd_job_disabled = False,
                wd_job_interval = 0.2 * 1000, wd_job_n_intervals = 0,
                job_submit_state_out = Some ''SUBMITTED'',
                job_submit_time_out = Some (now_c e),
                embeddings_found_out = None\<rparr>)
      else if job_submit_state \<in> set [''SUBMITTED'', ''PENDING'', ''IN_PROGRESS''] then
        (case get_job_status (the_client e) job_id job_submit_time of
           Inl ex \<Rightarrow> Inl ex
         | Inr st \<Rightarrow>
             (if \<not> status_truthy st then
                Inr \<lparr>btn_simulate_disabled = True, wd_job_disabled = False,
                     wd_job_interval = 0.2 * 1000, wd_job_n_intervals = 0,
                     job_submit_state_out = Some ''SUBMITTED'',
                     job_submit_time_out = None, embeddings_found_out = None\<rparr>
              else
                Inr \<lparr>btn_simulate_disabled = True, wd_job_disabled = False,
                     wd_job_interval = 1 * 1000, wd_job_n_intervals = 0,
                     job_submit_state_out = st,
                     job_submit_time_out = None, embeddings_found_out = None\<rparr>))
      else if job_submit_state \<in> set [''COMPLETED'', ''CANCELLED'', ''FAILED''] then
        Inr \<lparr>btn_simulate_disabled = False, wd_job_disabled = True,
             wd_job_interval = 0.1 * 1000, wd_job_n_intervals = 0,
             job_submit_state_out = None,
             job_submit_time_out = None, embeddings_found_out = None\<rparr>
      else
        Inr \<lparr>btn_simulate_disabled = False, wd_job_disabled = True,
             wd_job_interval = 0, wd_job_n_intervals = 0,
             job_submit_state_out = Some ''ERROR'',
             job_submit_time_out = None, embeddings_found_out = None\<rparr>)"

subsection \<open>The page: component properties read and written by simulate\<close>

text \<open>
  The Dash runtime keeps the component properties; a callback reads its
  \<^verbatim>\<open>Input\<close>/\<^verbatim>\<open>State\<close> properties from them and its outputs are written back,
  an output \<^verbatim>\<open>dash.no_update\<close> leaving the property as it was. The record holds
  the seven properties \<^verbatim>\<open>simulate\<close> writes and the four it only reads
  (\<^verbatim>\<open>job_id\<close>, \<^verbatim>\<open>embedding_is_cached\<close>, \<^verbatim>\<open>spins\<close>, \<^verbatim>\<open>qpu_selection\<close>), which
  other callbacks or the user set.
\<close>

record page =
  btn_disabled :: bool
  wd_disabled :: bool
  wd_interval :: real
  wd_n_intervals :: nat
  submit_state :: string
  submit_time :: string
  found_store :: store
  the_job_id :: string
  cached_lengths :: "nat list"
  spins_value :: nat
  qpu_value :: string

definition write_outputs :: "simulate_out \<Rightarrow> page \<Rightarrow> page" where
  "write_outputs out p =
     p\<lparr>btn_disabled := btn_simulate_disabled out,
       wd_disabled := wd_job_disabled out,
       wd_interval := wd_job_interval out,
       wd_n_intervals := wd_job_n_intervals out,
       submit_state := (case job_submit_state_out out of None \<Rightarrow> submit_state p | Some s \<Rightarrow> s),
       submit_time := (case job_submit_time_out out of None \<Rightarrow> submit_time p | Some t \<Rightarrow> t),
       found_store := (case embeddings_found_out out of None \<Rightarrow> found_store p | Some d \<Rightarrow> d)\<rparr>"

text \<open>One firing of the callback: a click on the button or a tick of the timer.\<close>

definition fire :: "env \<Rightarrow> trigger \<Rightarrow> page \<Rightarrow> py_error + page" where
  "fire e triggered_id p =
     (case simulate e triggered_id (the_job_id p) (submit_state p) (submit_time p)
             (cached_lengths p) (spins_value p) (qpu_value p) (found_store p) of
        Inl ex \<Rightarrow> Inl ex
      | Inr out \<Rightarrow> Inr (write_outputs out p))"

subsection \<open>Concrete inputs\<close>

definition ex_env :: env where
  "ex_env = \<lparr>now_c = ''Tue Nov  3 20:15:00 2026'',
             qpus = [''Advantage_system4.3'' \<mapsto> [(10, 11), (11, 12), (12, 10)],
                     classical_name \<mapsto> []],
             the_client = DummyClient,
             find_subgraph = (\<lambda>ring target timeout.
                if length ring = 3 then Inr [(0, 10), (1, 11), (2, 12)] else Inr [])\<rparr>"

definition ex_page :: page where
  "ex_page = \<lparr>btn_disabled = False, wd_disabled = True, wd_interval = 500,
              wd_n_intervals = 0, submit_state = ''READY'', submit_time = [],
              found_store = Empty, the_job_id = [], cached_lengths = [512, 1024],
              spins_value = 512, qpu_value = ''Advantage_system4.3''\<rparr>"

text \<open>Successive ticks of the timer, each with the environment it finds.\<close>

fun ticks :: "env list \<Rightarrow> page \<Rightarrow> py_error + page" where
  "ticks [] p = Inr p"
| "ticks (e # es) p =
     (case fire e Wd_job p of Inl ex \<Rightarrow> Inl ex | Inr p' \<Rightarrow> ticks es p')"

text \<open>
  A cloud client that knows one job, \<^verbatim>\<open>"2"\<close>, completed and labelled as
  \<^verbatim>\<open>submit_job\<close> labels it; any other job id is not found.
\<close>

definition ex_lookup :: "string \<Rightarrow> py_error + problem_status" where
  "ex_lookup job =
     (if job = ''2'' then
        Inr \<lparr>label = Some ''Examples - Kibble-Zurek Simulation, submitted: Tue Nov  3 20:15:00 2026'',
             status_value = ''COMPLETED''\<rparr>
      else Inl ResourceNotFoundError)"

definition ex_cloud_env :: env where
  "ex_cloud_env = ex_env\<lparr>the_client := CloudClient ex_lookup\<rparr>"

definition ex_polling :: page where
  "ex_polling = \<lparr>btn_disabled = True, wd_disabled = False, wd_interval = 1000,
                 wd_n_intervals = 0, submit_state = ''IN_PROGRESS'',
                 submit_time = ''Tue Nov  3 20:15:00 2026'',
                 found_store = Empty, the_job_id = ''2'', cached_lengths = [512, 1024],
                 spins_value = 512, qpu_value = ''Advantage_system4.3''\<rparr>"

definition ex_embedding :: page where
  "ex_embedding = \<lparr>btn_disabled = True, wd_disabled = False, wd_interval = 500,
                   wd_n_intervals = 0, submit_state = ''EMBEDDING'', submit_time = [],
                   found_store = Str ''needed'', the_job_id = [], cached_lengths = [512, 1024],
                   spins_value = 3, qpu_value = ''Advantage_system4.3''\<rparr>"

subsection \<open>app.py: module initialisation and alert_no_solver\<close>

text \<open>
  What \<^verbatim>\<open>Client.from_config(client="qpu")\<close> yields when it does not raise: a
  client with its status lookup and with the outcome of
  \<^verbatim>\<open>get_solvers(fast_anneal_time_range__covers=[0.005, 0.1])\<close>, the matching
  solvers by name, each with its edge list.
\<close>

record cloud =
  cloud_lookup :: "string \<Rightarrow> py_error + problem_status"
  get_solvers :: "py_error + (string \<times> edge list) list"

record startup =
  init_qpus :: "(string \<times> edge list) list"
  init_client :: client
  init_job_status :: string

text \<open>
  The statements at module level, lines 44 to 68, in their order: the
  \<^verbatim>\<open>try\<close>/\<^verbatim>\<open>except\<close>, the optional classical sampler (\<^verbatim>\<open>USE_CLASSICAL\<close> comes from
  \<^verbatim>\<open>demo_configs\<close>, so it is a parameter, as are the edges of the mock sampler), the
  unconditional assignment of \<^verbatim>\<open>"READY"\<close>, and the replacement of a false client
  by \<^verbatim>\<open>"dummy"\<close>.
\<close>

definition initialize :: "py_error + cloud \<Rightarrow> bool \<Rightarrow> edge list \<Rightarrow> startup" where
  "initialize from_config use_classical mock_edges =
     (let s0 =
        (case from_config of
           Inl ex \<Rightarrow> \<lparr>init_qpus = [], init_client = NoClient, init_job_status = ''NO SOLVER''\<rparr>
         | Inr c \<Rightarrow>
             (case get_solvers c of
                Inl ex \<Rightarrow>
                  \<lparr>init_qpus = [], init_client = NoClient, init_job_status = ''NO SOLVER''\<rparr>
              | Inr solvers \<Rightarrow>
                  if length solvers < 1 then
                    \<lparr>init_qpus = [], init_client = NoClient, init_job_status = ''NO SOLVER''\<rparr>
                  else
                    \<lparr>init_qpus = solvers, init_client = CloudClient (cloud_lookup c),
                     init_job_status = ''READY''\<rparr>));
          s1 = (if use_classical
                then s0\<lparr>init_qpus := init_qpus s0 @ [(classical_name, mock_edges)]\<rparr>
                else s0);
          s2 = s1\<lparr>init_job_status := ''READY''\<rparr>
      in if \<not> client_truthy (init_client s2) then s2\<lparr>init_client := DummyClient\<rparr> else s2)"

text \<open>
  \<^verbatim>\<open>alert_no_solver\<close>: whether the no-solver modal opens. The first argument says
  whether the callback was triggered by the button.
\<close>

definition alert_no_solver :: "bool \<Rightarrow> client \<Rightarrow> bool" where
  "alert_no_solver triggered_by_btn cl = (triggered_by_btn \<and> \<not> client_truthy cl)"

text \<open>
  The environment of \<^verbatim>\<open>simulate\<close> after initialisation. The list of samplers is in
  the order of insertion into the dict \<^verbatim>\<open>qpus\<close>; of two entries with one name the dict
  keeps the later one.
\<close>

definition env_of :: "startup \<Rightarrow> string \<Rightarrow> find_subgraph_fn \<Rightarrow> env" where
  "env_of s clock search =
     \<lparr>now_c = clock, qpus = map_of (rev (init_qpus s)), the_client = init_client s,
      find_subgraph = search\<rparr>"

subsection \<open>helpers/qa.py: create_bqm\<close>

text \<open>
  \<^verbatim>\<open>dimod.BinaryQuadraticModel\<close> belongs to an external library; what \<^verbatim>\<open>create_bqm\<close>
  uses of it is modelled after the library's documented behaviour. A model holds its
  variables in the order they were added and one bias for each interacting pair of
  variables, the pair being unordered. \<^verbatim>\<open>add_quadratic(u, v, bias)\<close> raises
  \<^verbatim>\<open>ValueError\<close> when \<open>u = v\<close> (a variable cannot interact with itself); otherwise it
  adds the variables that are new and then either adds \<open>bias\<close> to the bias the pair
  already has or records the pair with \<open>bias\<close>.
\<close>

record bqm =
  variables :: "nat list"
  quadratic :: "((nat \<times> nat) \<times> real) list"

definition empty_bqm :: bqm where
  "empty_bqm = \<lparr>variables = [], quadratic = []\<rparr>"

definition add_variable :: "nat \<Rightarrow> bqm \<Rightarrow> bqm" where
  "add_variable v b = (if v \<in> set (variables b) then b else b\<lparr>variables := variables b @ [v]\<rparr>)"

fun add_bias :: "nat \<Rightarrow> nat \<Rightarrow> real \<Rightarrow> ((nat \<times> nat) \<times> real) list \<Rightarrow> ((nat \<times> nat) \<times> real) list" where
  "add_bias u v bias [] = [((u, v), bias)]"
| "add_bias u v bias (((a, b), y) # qs) =
     (if (a = u \<and> b = v) \<or> (a = v \<and> b = u) then ((a, b), y + bias) # qs
      else ((a, b), y) # add_bias u v bias qs)"

definition add_quadratic :: "nat \<Rightarrow> nat \<Rightarrow> real \<Rightarrow> bqm \<Rightarrow> py_error + bqm" where
  "add_quadratic u v bias b =
     (if u = v then Inl ValueError
      else let b' = add_variable v (add_variable u b)
           in Inr (b'\<lparr>quadratic := add_bias u v bias (quadratic b')\<rparr>))"

text \<open>The bias of the pair \<open>{u, v}\<close>, if the pair interacts.\<close>

fun get_quadratic :: "((nat \<times> nat) \<times> real) list \<Rightarrow> nat \<Rightarrow> nat \<Rightarrow> real option" where
  "get_quadratic [] u v = None"
| "get_quadratic (((a, b), y) # qs) u v =
     (if (a = u \<and> b = v) \<or> (a = v \<and> b = u) then Some y else get_quadratic qs u v)"

text \<open>The loop of \<^verbatim>\<open>create_bqm\<close> over the spins still to do.\<close>

fun add_ring :: "nat list \<Rightarrow> nat \<Rightarrow> real \<Rightarrow> bqm \<Rightarrow> py_error + bqm" where
  "add_ring [] num_spins coupling_strength b = Inr b"
| "add_ring (spin # rest) num_spins coupling_strength b =
     (case add_quadratic spin ((spin + 1) mod num_spins) coupling_strength b of
        Inl ex \<Rightarrow> Inl ex
      | Inr b' \<Rightarrow> add_ring rest num_spins coupling_strength b')"

definition create_bqm :: "nat \<Rightarrow> real \<Rightarrow> py_error + bqm" where
  "create_bqm num_spins coupling_strength =
     add_ring [0..<num_spins] num_spins coupling_strength empty_bqm"

text \<open>The model after the loop has done the spins below \<open>k\<close>, for a ring of at least 3.\<close>

definition ring_upto :: "nat \<Rightarrow> real \<Rightarrow> nat \<Rightarrow> bqm" where
  "ring_upto N J k =
     \<lparr>variables = (if k = 0 then [] else [0..<min (k + 1) N]),
      quadratic = map (\<lambda>i. ((i, (i + 1) mod N), J)) [0..<k]\<rparr>"

subsection \<open>NumPy floating-point values\<close>

text \<open>
  A \<^verbatim>\<open>float64\<close> is idealised: a finite value is an exact real number, and the special
  values are the two infinities and NaN. Rounding, overflow, underflow and the sign
  of zero are not modelled: a zero divisor counts as the positive zero, and a finite
  value divided by an infinity is the zero without sign. No statement below gives a
  value that depends on the sign of a zero. NumPy's arithmetic on these values returns
  special values with a warning; it does not raise.
\<close>

datatype npfloat = Fin real | PInf | NInf | NaN

fun npf_sub :: "npfloat \<Rightarrow> npfloat \<Rightarrow> npfloat" where
  "npf_sub (Fin a) (Fin b) = Fin (a - b)"
| "npf_sub NaN _ = NaN"
| "npf_sub _ NaN = NaN"
| "npf_sub PInf PInf = NaN"
| "npf_sub NInf NInf = NaN"
| "npf_sub PInf _ = PInf"
| "npf_sub NInf _ = NInf"
| "npf_sub (Fin a) PInf = NInf"
| "npf_sub (Fin a) NInf = PInf"

fun npf_mul :: "npfloat \<Rightarrow> npfloat \<Rightarrow> npfloat" where
  "npf_mul (Fin a) (Fin b) = Fin (a * b)"
| "npf_mul NaN _ = NaN"
| "npf_mul _ NaN = NaN"
| "npf_mul (Fin a) PInf = (if a = 0 then NaN else if 0 < a then PInf else NInf)"
| "npf_mul (Fin a) NInf = (if a = 0 then NaN else if 0 < a then NInf else PInf)"
| "npf_mul PInf (Fin b) = (if b = 0 then NaN else if 0 < b then PInf else NInf)"
| "npf_mul NInf (Fin b) = (if b = 0 then NaN else if 0 < b then NInf else PInf)"
| "npf_mul PInf PInf = PInf"
| "npf_mul NInf NInf = PInf"
| "npf_mul PInf NInf = NInf"
| "npf_mul NInf PInf = NInf"

fun npf_div :: "npfloat \<Rightarrow> npfloat \<Rightarrow> npfloat" where
  "npf_div (Fin a) (Fin b) =
     (if b \<noteq> 0 then Fin (a / b)
      else if a = 0 then NaN else if 0 < a then PInf else NInf)"
| "npf_div NaN _ = NaN"
| "npf_div _ NaN = NaN"
| "npf_div (Fin a) PInf = Fin 0"
| "npf_div (Fin a) NInf = Fin 0"
| "npf_div PInf (Fin b) = (if 0 \<le> b then PInf else NInf)"
| "npf_div NInf (Fin b) = (if 0 \<le> b then NInf else PInf)"
| "npf_div PInf PInf = NaN"
| "npf_div PInf NInf = NaN"
| "npf_div NInf PInf = NaN"
| "npf_div NInf NInf = NaN"

fun npf_sqrt :: "npfloat \<Rightarrow> npfloat" where
  "npf_sqrt (Fin a) = (if a < 0 then NaN else Fin (sqrt a))"
| "npf_sqrt PInf = PInf"
| "npf_sqrt NInf = NaN"
| "npf_sqrt NaN = NaN"

text \<open>\<^verbatim>\<open>np.power(x, -0.5)\<close> at a finite \<open>x\<close>.\<close>

definition np_power_neg_half :: "real \<Rightarrow> npfloat" where
  "np_power_neg_half x =
     (if x < 0 then NaN else if x = 0 then PInf else Fin (x powr (- 1 / 2)))"

text \<open>\<^verbatim>\<open>np.mean\<close> of a one-dimensional array of counts: NaN for the empty array.\<close>

definition np_mean :: "nat list \<Rightarrow> npfloat" where
  "np_mean xs = (if xs = [] then NaN else Fin (real (sum_list xs) / real (length xs)))"

subsection \<open>helpers/kz_calcs.py: kink_stats\<close>

text \<open>
  The array \<^verbatim>\<open>sampleset.record.sample\<close>: its second dimension and its rows, each row
  of that length. The entries are spins, taken as integers: the difference of two
  spins does not leave the range of the array's integer type, and a difference is zero
  exactly when the two entries are equal.
\<close>

record ndarray =
  shape1 :: nat
  rows :: "int list list"

definition wf_array :: "ndarray \<Rightarrow> bool" where
  "wf_array a = (\<forall>r \<in> set (rows a). length r = shape1 a)"

text \<open>\<^verbatim>\<open>np.diff\<close> along a row: \<open>out[i] = xs[i + 1] - xs[i]\<close>.\<close>

definition np_diff :: "int list \<Rightarrow> int list" where
  "np_diff xs = map2 (\<lambda>a b. a - b) (tl xs) xs"

text \<open>\<^verbatim>\<open>np.diff(row, prepend=row[-1])\<close>, for a non-empty row.\<close>

definition sign_switches :: "int list \<Rightarrow> int list" where
  "sign_switches row = np_diff (last row # row)"

definition count_nonzero :: "int list \<Rightarrow> nat" where
  "count_nonzero xs = length (filter (\<lambda>x. x \<noteq> 0) xs)"

text \<open>\<^verbatim>\<open>np.count_nonzero\<close> of a boolean row: the number of \<^verbatim>\<open>True\<close>.\<close>

definition count_true :: "bool list \<Rightarrow> nat" where
  "count_true bs = length (filter (\<lambda>b. b) bs)"

text \<open>
  \<^verbatim>\<open>kink_stats\<close>. Taking the last column of an array without columns raises
  \<^verbatim>\<open>IndexError\<close>; the second dimension is then positive where the mean is divided by it.
\<close>

definition kink_stats :: "ndarray \<Rightarrow> real \<Rightarrow> py_error + (nat list \<times> npfloat)" where
  "kink_stats samples_array J =
     (if shape1 samples_array = 0 then Inl IndexError
      else
        let switches = map sign_switches (rows samples_array) in
        if J < 0 then
          let switches_per_sample = map count_nonzero switches;
              kink_density = npf_div (np_mean switches_per_sample)
                               (Fin (real (shape1 samples_array)))
          in Inr (switches_per_sample, kink_density)
        else
          let non_switches_per_sample = map (\<lambda>d. count_true (map (\<lambda>x. x = 0) d)) switches;
              kink_density = npf_div (np_mean non_switches_per_sample)
                               (Fin (real (shape1 samples_array)))
          in Inr (non_switches_per_sample, kink_density))"

text \<open>
  The words of the specification: the cyclic first difference of a row is each
  element minus its cyclic predecessor, wrapping around.
\<close>

definition cyclic_diff :: "int list \<Rightarrow> int list" where
  "cyclic_diff row =
     map (\<lambda>i. row ! i - row ! ((i + length row - 1) mod length row)) [0..<length row]"

text \<open>
  A perfectly alternating row on a ring: an even number of spins, \<open>s\<close> at the even
  places and \<open>- s\<close> at the odd ones, \<open>s\<close> not zero. A constant row: every spin equal
  to the first.
\<close>

definition alternating :: "int list \<Rightarrow> bool" where
  "alternating row =
     (even (length row) \<and> row \<noteq> [] \<and> row ! 0 \<noteq> 0
      \<and> (\<forall>i < length row. row ! i = (if even i then row ! 0 else - (row ! 0))))"

definition constant_row :: "int list \<Rightarrow> bool" where
  "constant_row row = (\<forall>i < length row. row ! i = row ! 0)"

definition ex_samples :: ndarray where
  "ex_samples = \<lparr>shape1 = 4, rows = [[1, 1, -1, 1], [1, 1, 1, 1], [1, -1, 1, -1]]\<rparr>"

definition ex_alternating :: ndarray where
  "ex_alternating = \<lparr>shape1 = 4, rows = [[1, -1, 1, -1], [-1, 1, -1, 1]]\<rparr>"

definition ex_constant :: ndarray where
  "ex_constant = \<lparr>shape1 = 4, rows = [[1, 1, 1, 1], [-1, -1, -1, -1]]\<rparr>"

subsection \<open>helpers/kz_calcs.py: theoretical_kink_density\<close>

text \<open>
  A row of the anneal schedule: the normalized time \<open>s\<close>, which the function does not
  read, and the three columns it reads, \<^verbatim>\<open>'A(s) (GHz)'\<close>, \<^verbatim>\<open>'B(s) (GHz)'\<close> and
  \<^verbatim>\<open>'C (normalized)'\<close>. The schedule is the list of its rows, indexed from 0, with
  finite entries.
\<close>

record schedule_row =
  s_time :: real
  A_GHz :: real
  B_GHz :: real
  C_normalized :: real

type_synonym schedule = "schedule_row list"

text \<open>
  \<^verbatim>\<open>Series.diff()\<close>: NaN at the first index, then each element minus the one
  before it.
\<close>

definition series_diff :: "real list \<Rightarrow> npfloat list" where
  "series_diff xs =
     (case xs of [] \<Rightarrow> [] | _ # _ \<Rightarrow> NaN # map2 (\<lambda>a b. Fin (a - b)) (tl xs) xs)"

text \<open>
  \<^verbatim>\<open>Series.idxmin()\<close>: the index of the first occurrence of the minimum;
  \<^verbatim>\<open>ValueError\<close> on an empty series. \<open>argmin_from best v i xs\<close> scans \<open>xs\<close>, whose
  first element has index \<open>i\<close>, with \<open>v\<close> the least value so far, found at \<open>best\<close>.
\<close>

fun argmin_from :: "nat \<Rightarrow> real \<Rightarrow> nat \<Rightarrow> real list \<Rightarrow> nat" where
  "argmin_from best v i [] = best"
| "argmin_from best v i (x # xs) =
     (if x < v then argmin_from i x (Suc i) xs else argmin_from best v (Suc i) xs)"

definition idxmin :: "real list \<Rightarrow> py_error + nat" where
  "idxmin xs = (case xs of [] \<Rightarrow> Inl ValueError | x # rest \<Rightarrow> Inr (argmin_from 0 x 1 rest))"

text \<open>
  \<^verbatim>\<open>theoretical_kink_density\<close>. The factor \<^verbatim>\<open>1e9\<close> is written out, and \<^verbatim>\<open>1e-9 * t\<close>
  is \<open>t / 10\<^sup>9\<close>. Indexing a column at \<^verbatim>\<open>sc_indx\<close> is in range, \<^verbatim>\<open>idxmin\<close> returning
  an index of the series.
\<close>

definition theoretical_kink_density :: "real list \<Rightarrow> real \<Rightarrow> schedule \<Rightarrow> py_error + npfloat list" where
  "theoretical_kink_density annealing_times_ns J schedule =
     (let A = map A_GHz schedule;
          B = map B_GHz schedule;
          C = map C_normalized schedule;
          A_tag = map2 npf_div (series_diff A) (series_diff C);
          B_tag = map2 npf_div (series_diff B) (series_diff C)
      in case idxmin (map2 (\<lambda>a b. \<bar>a - b * \<bar>J\<bar>\<bar>) A B) of
           Inl ex \<Rightarrow> Inl ex
         | Inr sc_indx \<Rightarrow>
             let b_numerator = Fin (1000000000 * pi * A ! sc_indx);
                 b_denominator = npf_sub (npf_div (B_tag ! sc_indx) (Fin (B ! sc_indx)))
                                         (npf_div (A_tag ! sc_indx) (Fin (A ! sc_indx)));
                 b = npf_div b_numerator b_denominator
             in Inr (map (\<lambda>t. npf_div (np_power_neg_half (t / 1000000000))
                                  (npf_mul (Fin (2 * pi)) (npf_sqrt (npf_mul (Fin 2) b))))
                       annealing_times_ns))"

text \<open>
  The quantity minimised by the critical index.
\<close>

definition crossing :: "real \<Rightarrow> schedule \<Rightarrow> nat \<Rightarrow> real" where
  "crossing J schedule i = \<bar>A_GHz (schedule ! i) - B_GHz (schedule ! i) * \<bar>J\<bar>\<bar>"

text \<open>
  The words of the specification: the discrete derivatives of \<open>A\<close> and \<open>B\<close> with
  respect to the normalized-time column (the difference of two successive rows over
  the difference of their normalized times), and the rate constant
  \<open>b = \<pi> A / (B'/B - A'/A)\<close> at a row, with \<open>A\<close> converted from GHz to Hz.
\<close>

definition dA_ds :: "schedule \<Rightarrow> nat \<Rightarrow> real" where
  "dA_ds schedule i =
     (A_GHz (schedule ! i) - A_GHz (schedule ! (i - 1)))
       / (s_time (schedule ! i) - s_time (schedule ! (i - 1)))"

definition dB_ds :: "schedule \<Rightarrow> nat \<Rightarrow> real" where
  "dB_ds schedule i =
     (B_GHz (schedule ! i) - B_GHz (schedule ! (i - 1)))
       / (s_time (schedule ! i) - s_time (schedule ! (i - 1)))"

definition rate_constant_s :: "schedule \<Rightarrow> nat \<Rightarrow> real" where
  "rate_constant_s schedule i =
     pi * (A_GHz (schedule ! i) * 1000000000)
       / (dB_ds schedule i / B_GHz (schedule ! i) - dA_ds schedule i / A_GHz (schedule ! i))"

text \<open>
  What the source computes at a row after the first, over the reals: \<^verbatim>\<open>A_tag\<close> and
  \<^verbatim>\<open>B_tag\<close> are \<^verbatim>\<open>A.diff()/C.diff()\<close> and \<^verbatim>\<open>B.diff()/C.diff()\<close>, the differences being
  taken over the column \<^verbatim>\<open>'C (normalized)'\<close>; then \<^verbatim>\<open>b_denominator\<close> and \<^verbatim>\<open>b\<close>.
\<close>

definition dA_dC :: "schedule \<Rightarrow> nat \<Rightarrow> real" where
  "dA_dC schedule i =
     (A_GHz (schedule ! i) - A_GHz (schedule ! (i - 1)))
       / (C_normalized (schedule ! i) - C_normalized (schedule ! (i - 1)))"

definition dB_dC :: "schedule \<Rightarrow> nat \<Rightarrow> real" where
  "dB_dC schedule i =
     (B_GHz (schedule ! i) - B_GHz (schedule ! (i - 1)))
       / (C_normalized (schedule ! i) - C_normalized (schedule ! (i - 1)))"

definition rate_denominator_C :: "schedule \<Rightarrow> nat \<Rightarrow> real" where
  "rate_denominator_C schedule i =
     dB_dC schedule i / B_GHz (schedule ! i) - dA_dC schedule i / A_GHz (schedule ! i)"

definition rate_constant_C :: "schedule \<Rightarrow> nat \<Rightarrow> real" where
  "rate_constant_C schedule i =
     pi * (A_GHz (schedule ! i) * 1000000000) / rate_denominator_C schedule i"

definition ex_schedule :: schedule where
  "ex_schedule =
     [\<lparr>s_time = 0, A_GHz = 3, B_GHz = 1, C_normalized = 0\<rparr>,
      \<lparr>s_time = 1 / 2, A_GHz = 2, B_GHz = 2, C_normalized = 1 / 2\<rparr>,
      \<lparr>s_time = 1, A_GHz = 1, B_GHz = 4, C_normalized = 1\<rparr>]"

text \<open>The same \<open>A\<close> and \<open>B\<close> columns, with a \<open>C\<close> column that is not the normalized time.\<close>

definition ex_skewed_schedule :: schedule where
  "ex_skewed_schedule =
     [\<lparr>s_time = 0, A_GHz = 3, B_GHz = 1, C_normalized = 0\<rparr>,
      \<lparr>s_time = 1 / 2, A_GHz = 2, B_GHz = 2, C_normalized = 1 / 4\<rparr>,
      \<lparr>s_time = 1, A_GHz = 1, B_GHz = 4, C_normalized = 1 / 2\<rparr>]"

definition ex_flat_schedule :: schedule where
  "ex_flat_schedule =
     [\<lparr>s_time = 0, A_GHz = 2, B_GHz = 1, C_normalized = 0\<rparr>,
      \<lparr>s_time = 1 / 2, A_GHz = 2, B_GHz = 1, C_normalized = 1 / 2\<rparr>,
      \<lparr>s_time = 1, A_GHz = 2, B_GHz = 1, C_normalized = 1\<rparr>]"

definition ex_first_row_schedule :: schedule where
  "ex_first_row_schedule =
     [\<lparr>s_time = 0, A_GHz = 1, B_GHz = 1, C_normalized = 0\<rparr>,
      \<lparr>s_time = 1, A_GHz = 3, B_GHz = 1, C_normalized = 1\<rparr>]"

subsection \<open>helpers/qa.py: fitted_function\<close>







section \<open>Submit request\<close>

text \<open>
  C3, as stated, at the local classical sampler: the request goes to SUBMITTED, but
  what is recorded as the submission time is the constant \<^verbatim>\<open>"SA"\<close>, whatever
  the clock reads; it is not a fresh timestamp.
\<close>

theorem submit_classical_records_SA:
  "fire ex_env Btn_simulate (ex_page\<lparr>qpu_value := classical_name\<rparr>) =
     Inr (ex_page\<lparr>qpu_value := classical_name, btn_disabled := True, wd_disabled := False,
                  submit_state := ''SUBMITTED'', submit_time := ''SA''\<rparr>)
   \<and> now_c ex_env \<noteq> ''SA''"
  by (simp add: fire_def simulate_def write_outputs_def ex_env_def ex_page_def)

text \<open>
  C3, amended. A click on the button, in any state of the page, never raises. If the
  requested ring size is among the cached embedding lengths or the sampler is the
  local classical one, the state becomes SUBMITTED, the embedding signal is left as
  it was, and the submission time becomes the clock's reading, except for the
  classical sampler, where it becomes the constant \<^verbatim>\<open>"SA"\<close>. Otherwise the state
  becomes EMBEDDING, the embedding signal becomes \<^verbatim>\<open>"needed"\<close> and the submission
  time is left as it was. Either way the button is disabled and the timer enabled
  at 500 ms.
\<close>

theorem submit_request:
  "\<exists>p'. fire e Btn_simulate p = Inr p'
     \<and> btn_disabled p' \<and> \<not> wd_disabled p' \<and> wd_interval p' = 500
     \<and> (spins_value p \<in> set (cached_lengths p) \<or> qpu_value p = classical_name \<longrightarrow>
          submit_state p' = ''SUBMITTED''
          \<and> submit_time p' = (if qpu_value p = classical_name then ''SA'' else now_c e)
          \<and> found_store p' = found_store p)
     \<and> (\<not> (spins_value p \<in> set (cached_lengths p) \<or> qpu_value p = classical_name) \<longrightarrow>
          submit_state p' = ''EMBEDDING''
          \<and> found_store p' = Str ''needed''
          \<and> submit_time p' = submit_time p)"
  by (simp add: fire_def simulate_def write_outputs_def)

theorem submit_request_witness:
  "(\<exists>p'. fire ex_env Btn_simulate ex_page = Inr p'
      \<and> submit_state p' = ''SUBMITTED'' \<and> submit_time p' = ''Tue Nov  3 20:15:00 2026'')
   \<and> (\<exists>p'. fire ex_env Btn_simulate (ex_page\<lparr>spins_value := 2048\<rparr>) = Inr p'
      \<and> submit_state p' = ''EMBEDDING'' \<and> found_store p' = Str ''needed''
      \<and> submit_time p' = [])"
proof -
  have a: "spins_value ex_page \<in> set (cached_lengths ex_page)"
    and b: "qpu_value ex_page \<noteq> classical_name"
    and n: "now_c ex_env = ''Tue Nov  3 20:15:00 2026''"
    by (simp_all add: ex_page_def ex_env_def classical_name_def)
  have c: "\<not> (spins_value (ex_page\<lparr>spins_value := 2048\<rparr>)
                 \<in> set (cached_lengths (ex_page\<lparr>spins_value := 2048\<rparr>))
              \<or> qpu_value (ex_page\<lparr>spins_value := 2048\<rparr>) = classical_name)"
    and t: "submit_time (ex_page\<lparr>spins_value := 2048\<rparr>) = []"
    by (simp_all add: ex_page_def classical_name_def)
  from submit_request [of ex_env ex_page] a b n
  have first: "\<exists>p'. fire ex_env Btn_simulate ex_page = Inr p'
      \<and> submit_state p' = ''SUBMITTED'' \<and> submit_time p' = ''Tue Nov  3 20:15:00 2026''"
    by auto
  from submit_request [of ex_env "ex_page\<lparr>spins_value := 2048\<rparr>"] c t
  have second: "\<exists>p'. fire ex_env Btn_simulate (ex_page\<lparr>spins_value := 2048\<rparr>) = Inr p'
      \<and> submit_state p' = ''EMBEDDING'' \<and> found_store p' = Str ''needed''
      \<and> submit_time p' = []"
    by auto
  from first second show ?thesis by simp
qed

section \<open>Polling the job status\<close>

lemma example_label_split:
  "py_split ''Examples - Kibble-Zurek Simulation, submitted: Tue Nov  3 20:15:00 2026''
      ''submitted: '' =
   [''Examples - Kibble-Zurek Simulation, '', ''Tue Nov  3 20:15:00 2026'']"
  by (simp add: py_split_def py_split_aux.simps)

lemma get_job_status_not_found:
  "lookup job = Inl ResourceNotFoundError \<Longrightarrow>
   get_job_status (CloudClient lookup) job t = Inr None"
  by (simp add: get_job_status_def)

lemma get_job_status_label:
  "lookup job = Inr st \<Longrightarrow> label st = Some l \<Longrightarrow>
   py_split l ''submitted: '' = a # t' # r \<Longrightarrow>
   get_job_status (CloudClient lookup) job t =
     (if t' = t then Inr (Some (status_value st)) else Inr None)"
  by (simp add: get_job_status_def)

lemma fire_polling:
  assumes "submit_state p \<in> set [''SUBMITTED'', ''PENDING'', ''IN_PROGRESS'']"
    and "get_job_status (the_client e) (the_job_id p) (submit_time p) = Inr st"
  shows "fire e Wd_job p =
     Inr (p\<lparr>btn_disabled := True, wd_disabled := False,
            wd_interval := (if status_truthy st then 1000 else 200), wd_n_intervals := 0,
            submit_state := (if status_truthy st then the st else ''SUBMITTED'')\<rparr>)"
proof -
  from assms(1) have ne: "submit_state p \<noteq> ''EMBEDDING''" by auto
  show ?thesis
    using assms ne
    by (cases st) (simp_all add: fire_def simulate_def write_outputs_def)
qed

text \<open>
  C5. A tick of the timer in SUBMITTED, PENDING or IN_PROGRESS, with a cloud client.
  If the lookup of the job id raises not-found, or the submit time recorded in the
  returned label (the text after \<^verbatim>\<open>"submitted: "\<close>) differs from the stored submission
  time, the callback returns normally, the state is SUBMITTED and the interval 200 ms.
  If the recorded time is the stored one, the state becomes the status returned (every
  value of the status enumeration is a non-empty string) and the interval 1000 ms.
  Nothing else on the page changes; button disabled, timer enabled.
\<close>

theorem poll_status:
  assumes "submit_state p \<in> set [''SUBMITTED'', ''PENDING'', ''IN_PROGRESS'']"
    and "the_client e = CloudClient lookup"
  shows "(lookup (the_job_id p) = Inl ResourceNotFoundError
          \<or> (\<exists>st l a t r. lookup (the_job_id p) = Inr st \<and> label st = Some l
                \<and> py_split l ''submitted: '' = a # t # r \<and> t \<noteq> submit_time p)
          \<longrightarrow> fire e Wd_job p =
                Inr (p\<lparr>btn_disabled := True, wd_disabled := False, wd_interval := 200,
                       wd_n_intervals := 0, submit_state := ''SUBMITTED''\<rparr>))
       \<and> (\<forall>st l a r. lookup (the_job_id p) = Inr st \<and> label st = Some l
                \<and> py_split l ''submitted: '' = a # submit_time p # r
                \<and> status_value st \<noteq> []
          \<longrightarrow> fire e Wd_job p =
                Inr (p\<lparr>btn_disabled := True, wd_disabled := False, wd_interval := 1000,
                       wd_n_intervals := 0, submit_state := status_value st\<rparr>))"
proof (intro conjI impI allI)
  assume "lookup (the_job_id p) = Inl ResourceNotFoundError
          \<or> (\<exists>st l a t r. lookup (the_job_id p) = Inr st \<and> label st = Some l
                \<and> py_split l ''submitted: '' = a # t # r \<and> t \<noteq> submit_time p)"
  then have "get_job_status (the_client e) (the_job_id p) (submit_time p) = Inr None"
    using assms(2)
    by (auto simp: get_job_status_not_found get_job_status_label)
  from fire_polling [OF assms(1) this]
  show "fire e Wd_job p =
          Inr (p\<lparr>btn_disabled := True, wd_disabled := False, wd_interval := 200,
                 wd_n_intervals := 0, submit_state := ''SUBMITTED''\<rparr>)"
    by simp
next
  fix st l a r
  assume h: "lookup (the_job_id p) = Inr st \<and> label st = Some l
                \<and> py_split l ''submitted: '' = a # submit_time p # r
                \<and> status_value st \<noteq> []"
  then have "get_job_status (the_client e) (the_job_id p) (submit_time p)
               = Inr (Some (status_value st))"
    using assms(2) by (simp add: get_job_status_label)
  from fire_polling [OF assms(1) this] h
  show "fire e Wd_job p =
          Inr (p\<lparr>btn_disabled := True, wd_disabled := False, wd_interval := 1000,
                 wd_n_intervals := 0, submit_state := status_value st\<rparr>)"
    by simp
qed

theorem poll_status_witness:
  "fire ex_cloud_env Wd_job (ex_polling\<lparr>the_job_id := ''first few attempts''\<rparr>) =
     Inr (ex_polling\<lparr>the_job_id := ''first few attempts'',
                     wd_interval := 200, submit_state := ''SUBMITTED''\<rparr>)
   \<and> fire ex_cloud_env Wd_job (ex_polling\<lparr>submit_time := ''Mon Nov  2 09:00:00 2026''\<rparr>) =
     Inr (ex_polling\<lparr>submit_time := ''Mon Nov  2 09:00:00 2026'',
                     wd_interval := 200, submit_state := ''SUBMITTED''\<rparr>)
   \<and> fire ex_cloud_env Wd_job ex_polling = Inr (ex_polling\<lparr>submit_state := ''COMPLETED''\<rparr>)"
proof -
  have cl: "the_client ex_cloud_env = CloudClient ex_lookup"
    by (simp add: ex_cloud_env_def)
  have s1: "submit_state (ex_polling\<lparr>the_job_id := ''first few attempts''\<rparr>)
              \<in> set [''SUBMITTED'', ''PENDING'', ''IN_PROGRESS'']"
    and s2: "submit_state (ex_polling\<lparr>submit_time := ''Mon Nov  2 09:00:00 2026''\<rparr>)
              \<in> set [''SUBMITTED'', ''PENDING'', ''IN_PROGRESS'']"
    and s3: "submit_state ex_polling \<in> set [''SUBMITTED'', ''PENDING'', ''IN_PROGRESS'']"
    by (simp_all add: ex_polling_def)
  have nf: "ex_lookup (the_job_id (ex_polling\<lparr>the_job_id := ''first few attempts''\<rparr>))
              = Inl ResourceNotFoundError"
    by (simp add: ex_lookup_def)
  have stale: "\<exists>st l a t r.
        ex_lookup (the_job_id (ex_polling\<lparr>submit_time := ''Mon Nov  2 09:00:00 2026''\<rparr>)) = Inr st
        \<and> label st = Some l \<and> py_split l ''submitted: '' = a # t # r
        \<and> t \<noteq> submit_time (ex_polling\<lparr>submit_time := ''Mon Nov  2 09:00:00 2026''\<rparr>)"
    by (simp add: ex_lookup_def ex_polling_def example_label_split)
  have match: "ex_lookup (the_job_id ex_polling) =
        Inr \<lparr>label = Some ''Examples - Kibble-Zurek Simulation, submitted: Tue Nov  3 20:15:00 2026'',
             status_value = ''COMPLETED''\<rparr>
      \<and> label \<lparr>label = Some ''Examples - Kibble-Zurek Simulation, submitted: Tue Nov  3 20:15:00 2026'',
             status_value = ''COMPLETED''\<rparr>
          = Some ''Examples - Kibble-Zurek Simulation, submitted: Tue Nov  3 20:15:00 2026''
      \<and> py_split ''Examples - Kibble-Zurek Simulation, submitted: Tue Nov  3 20:15:00 2026''
            ''submitted: ''
          = ''Examples - Kibble-Zurek Simulation, '' # submit_time ex_polling # []
      \<and> status_value \<lparr>label = Some ''Examples - Kibble-Zurek Simulation, submitted: Tue Nov  3 20:15:00 2026'',
             status_value = ''COMPLETED''\<rparr> \<noteq> []"
    by (simp add: ex_lookup_def ex_polling_def example_label_split)
  from poll_status [OF s1 cl] nf
  have a: "fire ex_cloud_env Wd_job (ex_polling\<lparr>the_job_id := ''first few attempts''\<rparr>) =
     Inr (ex_polling\<lparr>the_job_id := ''first few attempts'',
                     wd_interval := 200, submit_state := ''SUBMITTED''\<rparr>)"
    by (simp add: ex_polling_def)
  from poll_status [OF s2 cl] stale
  have b: "fire ex_cloud_env Wd_job (ex_polling\<lparr>submit_time := ''Mon Nov  2 09:00:00 2026''\<rparr>) =
     Inr (ex_polling\<lparr>submit_time := ''Mon Nov  2 09:00:00 2026'',
                     wd_interval := 200, submit_state := ''SUBMITTED''\<rparr>)"
    by (simp add: ex_polling_def)
  from poll_status [OF s3 cl] match
  have c: "fire ex_cloud_env Wd_job ex_polling = Inr (ex_polling\<lparr>submit_state := ''COMPLETED''\<rparr>)"
    by (simp add: ex_polling_def)
  from a b c show ?thesis by simp
qed

section \<open>Terminal states\<close>

lemma fire_terminal:
  assumes "submit_state p \<in> set [''COMPLETED'', ''CANCELLED'', ''FAILED'']"
  shows "fire e Wd_job p =
     Inr (p\<lparr>btn_disabled := False, wd_disabled := True, wd_interval := 100,
            wd_n_intervals := 0\<rparr>)"
proof -
  from assms have ne: "submit_state p \<noteq> ''EMBEDDING''"
    "submit_state p \<notin> set [''SUBMITTED'', ''PENDING'', ''IN_PROGRESS'']"
    by auto
  show ?thesis
    using assms ne by (simp add: fire_def simulate_def write_outputs_def)
qed

lemma ticks_terminal:
  assumes "submit_state p \<in> set [''COMPLETED'', ''CANCELLED'', ''FAILED'']"
    and "es \<noteq> []"
  shows "ticks es p =
     Inr (p\<lparr>btn_disabled := False, wd_disabled := True, wd_interval := 100,
            wd_n_intervals := 0\<rparr>)"
  using assms
proof (induction es arbitrary: p)
  case Nil
  then show ?case by simp
next
  case (Cons e es)
  let ?q = "p\<lparr>btn_disabled := False, wd_disabled := True, wd_interval := 100,
              wd_n_intervals := 0\<rparr>"
  have step: "fire e Wd_job p = Inr ?q"
    using Cons.prems(1) by (rule fire_terminal)
  show ?case
  proof (cases "es = []")
    case True
    with step show ?thesis by simp
  next
    case False
    have "submit_state ?q \<in> set [''COMPLETED'', ''CANCELLED'', ''FAILED'']"
      using Cons.prems(1) by simp
    from Cons.IH [OF this False] step show ?thesis by simp
  qed
qed

section \<open>Embedding search\<close>

lemma fire_embedding_needed:
  assumes "submit_state p = ''EMBEDDING''" and "found_store p = Str ''needed''"
  shows "fire e Wd_job p =
     Inr (case (case qpus e (qpu_value p) of
                  None \<Rightarrow> Inl KeyError
                | Some edges \<Rightarrow>
                    find_one_to_one_embedding (find_subgraph e) (spins_value p) edges 60) of
            Inr emb \<Rightarrow>
              if emb \<noteq> [] then
                p\<lparr>btn_disabled := True, wd_disabled := False, wd_interval := 200,
                  wd_n_intervals := 0, found_store := Found (spins_value p) emb\<rparr>
              else
                p\<lparr>btn_disabled := True, wd_disabled := False, wd_interval := 200,
                  wd_n_intervals := 0, submit_state := ''FAILED'',
                  found_store := Str ''not found''\<rparr>
          | Inl ex \<Rightarrow>
              p\<lparr>btn_disabled := True, wd_disabled := False, wd_interval := 200,
                wd_n_intervals := 0, submit_state := ''FAILED'',
                found_store := Str ''not found''\<rparr>)"
  using assms
  by (simp add: fire_def simulate_def write_outputs_def split: sum.splits)

lemma fire_embedding_cached:
  assumes "submit_state p = ''EMBEDDING''" and "found_store p \<noteq> Str ''needed''"
  shows "fire e Wd_job p =
     Inr (p\<lparr>btn_disabled := True, wd_disabled := False, wd_interval := 200,
            wd_n_intervals := 0, submit_state := ''SUBMITTED'', submit_time := now_c e\<rparr>)"
  using assms by (simp add: fire_def simulate_def write_outputs_def)

text \<open>
  C4. A tick of the timer in EMBEDDING with the embedding signal \<^verbatim>\<open>"needed"\<close>.

  If the sampler is known and the search returns a non-empty mapping \<open>m\<close>, the state
  stays EMBEDDING, the embedding \<^verbatim>\<open>{spins: {k: (v,)}}\<close> is published in the signal
  and the submission time is untouched; the next tick, whatever the environment is
  then and whatever the other callbacks did to the job id and the cached lengths,
  moves to SUBMITTED with the clock's reading of that tick.

  If the sampler is unknown, or the search raises, or it returns an empty mapping,
  the state becomes FAILED and the signal \<^verbatim>\<open>"not found"\<close>; every later sequence of
  ticks, in any environments (also ones where the search would now succeed), leaves
  the state FAILED and the signal \<^verbatim>\<open>"not found"\<close>, with the button enabled and the
  timer disabled: the search is not run again.
\<close>

theorem embedding_tick:
  assumes "submit_state p = ''EMBEDDING''" and "found_store p = Str ''needed''"
  shows "(\<forall>edges m. qpus e (qpu_value p) = Some edges
             \<and> find_subgraph e (ring_edges (spins_value p)) edges 60 = Inr m \<and> m \<noteq> []
          \<longrightarrow> (\<exists>p1. fire e Wd_job p = Inr p1
                 \<and> p1 = p\<lparr>btn_disabled := True, wd_disabled := False, wd_interval := 200,
                          wd_n_intervals := 0,
                          found_store := Found (spins_value p) (map (\<lambda>(k, v). (k, [v])) m)\<rparr>
                 \<and> submit_state p1 = ''EMBEDDING''
                 \<and> (\<forall>e' job cached.
                       fire e' Wd_job (p1\<lparr>the_job_id := job, cached_lengths := cached\<rparr>) =
                         Inr (p1\<lparr>the_job_id := job, cached_lengths := cached,
                                 submit_state := ''SUBMITTED'', submit_time := now_c e'\<rparr>))))
       \<and> (qpus e (qpu_value p) = None
           \<or> (\<exists>edges. qpus e (qpu_value p) = Some edges
                \<and> (find_subgraph e (ring_edges (spins_value p)) edges 60 = Inr []
                    \<or> (\<exists>ex. find_subgraph e (ring_edges (spins_value p)) edges 60 = Inl ex)))
          \<longrightarrow> (\<exists>p1. fire e Wd_job p = Inr p1
                 \<and> p1 = p\<lparr>btn_disabled := True, wd_disabled := False, wd_interval := 200,
                          wd_n_intervals := 0, submit_state := ''FAILED'',
                          found_store := Str ''not found''\<rparr>
                 \<and> (\<forall>es. es \<noteq> [] \<longrightarrow>
                       ticks es p1 =
                         Inr (p1\<lparr>btn_disabled := False, wd_disabled := True,
                                 wd_interval := 100\<rparr>))))"
proof (intro conjI impI allI)
  fix edges m
  assume h: "qpus e (qpu_value p) = Some edges
             \<and> find_subgraph e (ring_edges (spins_value p)) edges 60 = Inr m \<and> m \<noteq> []"
  let ?p1 = "p\<lparr>btn_disabled := True, wd_disabled := False, wd_interval := 200,
               wd_n_intervals := 0,
               found_store := Found (spins_value p) (map (\<lambda>(k, v). (k, [v])) m)\<rparr>"
  have first: "fire e Wd_job p = Inr ?p1"
    using fire_embedding_needed [OF assms, of e] h
    by (simp add: find_one_to_one_embedding_def)
  have stay: "submit_state ?p1 = ''EMBEDDING''"
    using assms(1) by simp
  have "fire e' Wd_job (?p1\<lparr>the_job_id := job, cached_lengths := cached\<rparr>) =
          Inr (?p1\<lparr>the_job_id := job, cached_lengths := cached,
                   submit_state := ''SUBMITTED'', submit_time := now_c e'\<rparr>)"
    for e' job cached
  proof -
    have a: "submit_state (?p1\<lparr>the_job_id := job, cached_lengths := cached\<rparr>) = ''EMBEDDING''"
      using assms(1) by simp
    have b: "found_store (?p1\<lparr>the_job_id := job, cached_lengths := cached\<rparr>) \<noteq> Str ''needed''"
      by simp
    from fire_embedding_cached [OF a b, of e'] show ?thesis by simp
  qed
  with first stay
  show "\<exists>p1. fire e Wd_job p = Inr p1
          \<and> p1 = ?p1
          \<and> submit_state p1 = ''EMBEDDING''
          \<and> (\<forall>e' job cached.
                fire e' Wd_job (p1\<lparr>the_job_id := job, cached_lengths := cached\<rparr>) =
                  Inr (p1\<lparr>the_job_id := job, cached_lengths := cached,
                          submit_state := ''SUBMITTED'', submit_time := now_c e'\<rparr>))"
    by blast
next
  assume h: "qpus e (qpu_value p) = None
           \<or> (\<exists>edges. qpus e (qpu_value p) = Some edges
                \<and> (find_subgraph e (ring_edges (spins_value p)) edges 60 = Inr []
                    \<or> (\<exists>ex. find_subgraph e (ring_edges (spins_value p)) edges 60 = Inl ex)))"
  let ?p1 = "p\<lparr>btn_disabled := True, wd_disabled := False, wd_interval := 200,
               wd_n_intervals := 0, submit_state := ''FAILED'',
               found_store := Str ''not found''\<rparr>"
  have first: "fire e Wd_job p = Inr ?p1"
    using fire_embedding_needed [OF assms, of e] h
    by (auto simp: find_one_to_one_embedding_def)
  have fin: "submit_state ?p1 \<in> set [''COMPLETED'', ''CANCELLED'', ''FAILED'']"
    by simp
  have "ticks es ?p1 = Inr (?p1\<lparr>btn_disabled := False, wd_disabled := True,
                                 wd_interval := 100\<rparr>)" if "es \<noteq> []" for es
    using ticks_terminal [OF fin that] by simp
  with first
  show "\<exists>p1. fire e Wd_job p = Inr p1
          \<and> p1 = ?p1
          \<and> (\<forall>es. es \<noteq> [] \<longrightarrow>
                ticks es p1 =
                  Inr (p1\<lparr>btn_disabled := False, wd_disabled := True, wd_interval := 100\<rparr>))"
    by blast
qed

theorem embedding_tick_witness:
  "fire ex_env Wd_job ex_embedding =
     Inr (ex_embedding\<lparr>wd_interval := 200,
            found_store := Found 3 [(0, [10]), (1, [11]), (2, [12])]\<rparr>)
   \<and> fire ex_env Wd_job
        (ex_embedding\<lparr>wd_interval := 200,
            found_store := Found 3 [(0, [10]), (1, [11]), (2, [12])],
            cached_lengths := [512, 1024, 3]\<rparr>) =
     Inr (ex_embedding\<lparr>wd_interval := 200,
            found_store := Found 3 [(0, [10]), (1, [11]), (2, [12])],
            cached_lengths := [512, 1024, 3],
            submit_state := ''SUBMITTED'', submit_time := ''Tue Nov  3 20:15:00 2026''\<rparr>)
   \<and> fire ex_env Wd_job (ex_embedding\<lparr>spins_value := 5\<rparr>) =
     Inr (ex_embedding\<lparr>spins_value := 5, wd_interval := 200,
            submit_state := ''FAILED'', found_store := Str ''not found''\<rparr>)
   \<and> ticks [ex_env, ex_env\<lparr>find_subgraph := (\<lambda>r t n. Inr [(0, 1)])\<rparr>]
        (ex_embedding\<lparr>spins_value := 5, wd_interval := 200,
            submit_state := ''FAILED'', found_store := Str ''not found''\<rparr>) =
     Inr (ex_embedding\<lparr>spins_value := 5, submit_state := ''FAILED'',
            found_store := Str ''not found'', btn_disabled := False, wd_disabled := True,
            wd_interval := 100\<rparr>)"
proof -
  have s: "submit_state ex_embedding = ''EMBEDDING''"
    and f: "found_store ex_embedding = Str ''needed''"
    and s5: "submit_state (ex_embedding\<lparr>spins_value := 5\<rparr>) = ''EMBEDDING''"
    and f5: "found_store (ex_embedding\<lparr>spins_value := 5\<rparr>) = Str ''needed''"
    by (simp_all add: ex_embedding_def)
  have ok: "qpus ex_env (qpu_value ex_embedding) = Some [(10, 11), (11, 12), (12, 10)]
      \<and> find_subgraph ex_env (ring_edges (spins_value ex_embedding))
            [(10, 11), (11, 12), (12, 10)] 60 = Inr [(0, 10), (1, 11), (2, 12)]
      \<and> [(0, 10), (1, 11), (2, 12)] \<noteq> ([] :: (nat \<times> nat) list)"
    by (simp add: ex_env_def ex_embedding_def ring_edges_def classical_name_def)
  have bad: "\<exists>edges. qpus ex_env (qpu_value (ex_embedding\<lparr>spins_value := 5\<rparr>)) = Some edges
      \<and> (find_subgraph ex_env (ring_edges (spins_value (ex_embedding\<lparr>spins_value := 5\<rparr>)))
            edges 60 = Inr []
          \<or> (\<exists>ex. find_subgraph ex_env
                     (ring_edges (spins_value (ex_embedding\<lparr>spins_value := 5\<rparr>)))
                     edges 60 = Inl ex))"
    by (simp add: ex_env_def ex_embedding_def ring_edges_def classical_name_def)
  from embedding_tick [OF s f, of ex_env] ok
  have a: "fire ex_env Wd_job ex_embedding =
       Inr (ex_embedding\<lparr>wd_interval := 200,
              found_store := Found 3 [(0, [10]), (1, [11]), (2, [12])]\<rparr>)
     \<and> (\<forall>e' job cached. fire e' Wd_job
          (ex_embedding\<lparr>wd_interval := 200,
              found_store := Found 3 [(0, [10]), (1, [11]), (2, [12])],
              the_job_id := job, cached_lengths := cached\<rparr>) =
       Inr (ex_embedding\<lparr>wd_interval := 200,
              found_store := Found 3 [(0, [10]), (1, [11]), (2, [12])],
              the_job_id := job, cached_lengths := cached,
              submit_state := ''SUBMITTED'', submit_time := now_c e'\<rparr>))"
    by (simp add: ex_embedding_def)
  then have a2: "fire ex_env Wd_job
        (ex_embedding\<lparr>wd_interval := 200,
            found_store := Found 3 [(0, [10]), (1, [11]), (2, [12])],
            the_job_id := [], cached_lengths := [512, 1024, 3]\<rparr>) =
     Inr (ex_embedding\<lparr>wd_interval := 200,
            found_store := Found 3 [(0, [10]), (1, [11]), (2, [12])],
            the_job_id := [], cached_lengths := [512, 1024, 3],
            submit_state := ''SUBMITTED'', submit_time := now_c ex_env\<rparr>)"
    by blast
  from embedding_tick [OF s5 f5, of ex_env] bad
  have b: "fire ex_env Wd_job (ex_embedding\<lparr>spins_value := 5\<rparr>) =
       Inr (ex_embedding\<lparr>spins_value := 5, wd_interval := 200,
              submit_state := ''FAILED'', found_store := Str ''not found''\<rparr>)
     \<and> (\<forall>es. es \<noteq> [] \<longrightarrow> ticks es
          (ex_embedding\<lparr>spins_value := 5, wd_interval := 200,
              submit_state := ''FAILED'', found_store := Str ''not found''\<rparr>) =
       Inr (ex_embedding\<lparr>spins_value := 5, submit_state := ''FAILED'',
              found_store := Str ''not found'', btn_disabled := False, wd_disabled := True,
              wd_interval := 100\<rparr>))"
    by (simp add: ex_embedding_def)
  then have b2: "ticks [ex_env, ex_env\<lparr>find_subgraph := (\<lambda>r t n. Inr [(0, 1)])\<rparr>]
        (ex_embedding\<lparr>spins_value := 5, wd_interval := 200,
            submit_state := ''FAILED'', found_store := Str ''not found''\<rparr>) =
     Inr (ex_embedding\<lparr>spins_value := 5, submit_state := ''FAILED'',
            found_store := Str ''not found'', btn_disabled := False, wd_disabled := True,
            wd_interval := 100\<rparr>)"
    by blast
  from a a2 b b2 show ?thesis
    by (simp add: ex_embedding_def ex_env_def)
qed

section \<open>Completion\<close>

text \<open>
  C6, as stated, at job \<^verbatim>\<open>"2"\<close>, which the status lookup reports COMPLETED: the
  tick that takes the page from IN_PROGRESS to COMPLETED returns the button still
  disabled and the timer still enabled.
\<close>

theorem completing_tick_keeps_button_disabled:
  "fire ex_cloud_env Wd_job ex_polling =
     Inr \<lparr>btn_disabled = True, wd_disabled = False, wd_interval = 1000,
          wd_n_intervals = 0, submit_state = ''COMPLETED'',
          submit_time = ''Tue Nov  3 20:15:00 2026'',
          found_store = Empty, the_job_id = ''2'', cached_lengths = [512, 1024],
          spins_value = 512, qpu_value = ''Advantage_system4.3''\<rparr>"
  by (simp add: fire_def simulate_def write_outputs_def get_job_status_def
        ex_cloud_env_def ex_env_def ex_polling_def ex_lookup_def example_label_split)

text \<open>
  C6, amended. A tick in IN_PROGRESS whose status lookup returns COMPLETED (with the
  stored submission time in its label) sets the state to COMPLETED with the button
  still disabled and the timer still enabled, at 1000 ms; it is the following ticks, in
  state COMPLETED, that enable the button and disable the timer. In each of COMPLETED,
  CANCELLED and FAILED, any non-empty sequence of ticks enables the button, disables the
  timer (interval 100 ms) and leaves the state, the submission time, the embedding signal
  and the rest of the page as they were; and a click on the button in such a state starts
  again, in SUBMITTED or EMBEDDING, with the button disabled and the timer enabled.
\<close>

theorem completion_and_terminal_states:
  "(submit_state p = ''IN_PROGRESS'' \<and> the_client e = CloudClient lookup
      \<and> lookup (the_job_id p) = Inr st \<and> label st = Some l
      \<and> py_split l ''submitted: '' = a # submit_time p # r
      \<and> status_value st = ''COMPLETED''
    \<longrightarrow> (\<exists>p1. fire e Wd_job p = Inr p1
           \<and> p1 = p\<lparr>btn_disabled := True, wd_disabled := False, wd_interval := 1000,
                    wd_n_intervals := 0, submit_state := ''COMPLETED''\<rparr>
           \<and> (\<forall>es. es \<noteq> [] \<longrightarrow>
                 ticks es p1 = Inr (p1\<lparr>btn_disabled := False, wd_disabled := True,
                                       wd_interval := 100\<rparr>))))
   \<and> (submit_state p \<in> set [''COMPLETED'', ''CANCELLED'', ''FAILED'']
    \<longrightarrow> (\<forall>es. es \<noteq> [] \<longrightarrow>
            ticks es p = Inr (p\<lparr>btn_disabled := False, wd_disabled := True,
                                wd_interval := 100, wd_n_intervals := 0\<rparr>))
        \<and> (\<exists>p'. fire e Btn_simulate p = Inr p'
              \<and> submit_state p' \<in> set [''SUBMITTED'', ''EMBEDDING'']
              \<and> btn_disabled p' \<and> \<not> wd_disabled p'))"
proof (intro conjI impI)
  assume h: "submit_state p = ''IN_PROGRESS'' \<and> the_client e = CloudClient lookup
      \<and> lookup (the_job_id p) = Inr st \<and> label st = Some l
      \<and> py_split l ''submitted: '' = a # submit_time p # r
      \<and> status_value st = ''COMPLETED''"
  let ?p1 = "p\<lparr>btn_disabled := True, wd_disabled := False, wd_interval := 1000,
               wd_n_intervals := 0, submit_state := ''COMPLETED''\<rparr>"
  from h have run: "submit_state p \<in> set [''SUBMITTED'', ''PENDING'', ''IN_PROGRESS'']"
    by simp
  from h have "get_job_status (the_client e) (the_job_id p) (submit_time p)
                 = Inr (Some ''COMPLETED'')"
    by (simp add: get_job_status_label)
  from fire_polling [OF run this] have first: "fire e Wd_job p = Inr ?p1"
    by simp
  have fin: "submit_state ?p1 \<in> set [''COMPLETED'', ''CANCELLED'', ''FAILED'']"
    by simp
  have "ticks es ?p1 = Inr (?p1\<lparr>btn_disabled := False, wd_disabled := True,
                                 wd_interval := 100\<rparr>)" if "es \<noteq> []" for es
    using ticks_terminal [OF fin that] by simp
  with first
  show "\<exists>p1. fire e Wd_job p = Inr p1
          \<and> p1 = ?p1
          \<and> (\<forall>es. es \<noteq> [] \<longrightarrow>
                ticks es p1 = Inr (p1\<lparr>btn_disabled := False, wd_disabled := True,
                                      wd_interval := 100\<rparr>))"
    by blast
next
  assume "submit_state p \<in> set [''COMPLETED'', ''CANCELLED'', ''FAILED'']"
  then show "\<forall>es. es \<noteq> [] \<longrightarrow>
            ticks es p = Inr (p\<lparr>btn_disabled := False, wd_disabled := True,
                                wd_interval := 100, wd_n_intervals := 0\<rparr>)"
    using ticks_terminal by blast
next
  show "\<exists>p'. fire e Btn_simulate p = Inr p'
              \<and> submit_state p' \<in> set [''SUBMITTED'', ''EMBEDDING'']
              \<and> btn_disabled p' \<and> \<not> wd_disabled p'"
    by (simp add: fire_def simulate_def write_outputs_def)
qed

theorem completion_and_terminal_states_witness:
  "fire ex_cloud_env Wd_job ex_polling = Inr (ex_polling\<lparr>submit_state := ''COMPLETED''\<rparr>)
   \<and> ticks [ex_cloud_env] (ex_polling\<lparr>submit_state := ''COMPLETED''\<rparr>) =
       Inr (ex_polling\<lparr>submit_state := ''COMPLETED'', btn_disabled := False,
                       wd_disabled := True, wd_interval := 100\<rparr>)
   \<and> ticks [ex_cloud_env, ex_env] (ex_polling\<lparr>submit_state := ''CANCELLED''\<rparr>) =
       Inr (ex_polling\<lparr>submit_state := ''CANCELLED'', btn_disabled := False,
                       wd_disabled := True, wd_interval := 100\<rparr>)
   \<and> (\<exists>p'. fire ex_cloud_env Btn_simulate (ex_polling\<lparr>submit_state := ''CANCELLED''\<rparr>) = Inr p'
         \<and> submit_state p' \<in> set [''SUBMITTED'', ''EMBEDDING'']
         \<and> btn_disabled p' \<and> \<not> wd_disabled p')"
proof -
  have h: "submit_state ex_polling = ''IN_PROGRESS''
      \<and> the_client ex_cloud_env = CloudClient ex_lookup
      \<and> ex_lookup (the_job_id ex_polling) =
          Inr \<lparr>label = Some ''Examples - Kibble-Zurek Simulation, submitted: Tue Nov  3 20:15:00 2026'',
               status_value = ''COMPLETED''\<rparr>
      \<and> label \<lparr>label = Some ''Examples - Kibble-Zurek Simulation, submitted: Tue Nov  3 20:15:00 2026'',
               status_value = ''COMPLETED''\<rparr>
          = Some ''Examples - Kibble-Zurek Simulation, submitted: Tue Nov  3 20:15:00 2026''
      \<and> py_split ''Examples - Kibble-Zurek Simulation, submitted: Tue Nov  3 20:15:00 2026''
            ''submitted: ''
          = ''Examples - Kibble-Zurek Simulation, '' # submit_time ex_polling # []
      \<and> status_value \<lparr>label = Some ''Examples - Kibble-Zurek Simulation, submitted: Tue Nov  3 20:15:00 2026'',
               status_value = ''COMPLETED''\<rparr> = ''COMPLETED''"
    by (simp add: ex_cloud_env_def ex_lookup_def ex_polling_def example_label_split)
  have c: "submit_state (ex_polling\<lparr>submit_state := ''CANCELLED''\<rparr>)
             \<in> set [''COMPLETED'', ''CANCELLED'', ''FAILED'']"
    by simp
  note thm1 = completion_and_terminal_states
    [of ex_polling ex_cloud_env ex_lookup
        "\<lparr>label = Some ''Examples - Kibble-Zurek Simulation, submitted: Tue Nov  3 20:15:00 2026'',
          status_value = ''COMPLETED''\<rparr>"
        "''Examples - Kibble-Zurek Simulation, submitted: Tue Nov  3 20:15:00 2026''"
        "''Examples - Kibble-Zurek Simulation, ''" "[]"]
  from thm1 h
  have first: "\<exists>p1. fire ex_cloud_env Wd_job ex_polling = Inr p1
           \<and> p1 = ex_polling\<lparr>btn_disabled := True, wd_disabled := False, wd_interval := 1000,
                    wd_n_intervals := 0, submit_state := ''COMPLETED''\<rparr>
           \<and> (\<forall>es. es \<noteq> [] \<longrightarrow>
                 ticks es p1 = Inr (p1\<lparr>btn_disabled := False, wd_disabled := True,
                                       wd_interval := 100\<rparr>))"
    by blast
  have same: "ex_polling\<lparr>btn_disabled := True, wd_disabled := False, wd_interval := 1000,
                    wd_n_intervals := 0, submit_state := ''COMPLETED''\<rparr>
              = ex_polling\<lparr>submit_state := ''COMPLETED''\<rparr>"
    by (simp add: ex_polling_def)
  from first same
  have a: "fire ex_cloud_env Wd_job ex_polling = Inr (ex_polling\<lparr>submit_state := ''COMPLETED''\<rparr>)"
    and a2: "ticks [ex_cloud_env] (ex_polling\<lparr>submit_state := ''COMPLETED''\<rparr>) =
       Inr (ex_polling\<lparr>submit_state := ''COMPLETED'', btn_disabled := False,
                       wd_disabled := True, wd_interval := 100\<rparr>)"
    by auto
  from completion_and_terminal_states
    [of "ex_polling\<lparr>submit_state := ''CANCELLED''\<rparr>" ex_cloud_env] c
  have b: "ticks [ex_cloud_env, ex_env] (ex_polling\<lparr>submit_state := ''CANCELLED''\<rparr>) =
       Inr (ex_polling\<lparr>submit_state := ''CANCELLED'', btn_disabled := False,
                       wd_disabled := True, wd_interval := 100, wd_n_intervals := 0\<rparr>)"
    and b2: "\<exists>p'. fire ex_cloud_env Btn_simulate (ex_polling\<lparr>submit_state := ''CANCELLED''\<rparr>) = Inr p'
         \<and> submit_state p' \<in> set [''SUBMITTED'', ''EMBEDDING'']
         \<and> btn_disabled p' \<and> \<not> wd_disabled p'"
    by blast+
  have n0: "ex_polling\<lparr>submit_state := ''CANCELLED'', btn_disabled := False,
                       wd_disabled := True, wd_interval := 100, wd_n_intervals := 0\<rparr>
            = ex_polling\<lparr>submit_state := ''CANCELLED'', btn_disabled := False,
                       wd_disabled := True, wd_interval := 100\<rparr>"
    by (simp add: ex_polling_def)
  from a a2 b b2 n0 show ?thesis by simp
qed

section \<open>Start without a sampler\<close>

text \<open>
  C9, evaluated where the configuration of the client raises. Without the classical
  sampler: the initial status is READY, not NO SOLVER, the client is \<^verbatim>\<open>"dummy"\<close>, a
  click on the button does not open the no-solver modal, and the submission goes to
  EMBEDDING and then to FAILED with \<^verbatim>\<open>"not found"\<close>. With the classical sampler the
  submission goes to SUBMITTED and the first status poll raises, the client being the
  string \<^verbatim>\<open>"dummy"\<close>.
\<close>

theorem no_solver_is_not_signalled:
  "initialize (Inl OtherException) False [] =
     \<lparr>init_qpus = [], init_client = DummyClient, init_job_status = ''READY''\<rparr>
   \<and> alert_no_solver True (init_client (initialize (Inl OtherException) False [])) = False
   \<and> fire (env_of (initialize (Inl OtherException) False []) ''Tue Nov  3 20:15:00 2026''
             (\<lambda>r t n. Inr []))
        Btn_simulate (ex_page\<lparr>cached_lengths := []\<rparr>) =
       Inr (ex_page\<lparr>cached_lengths := [], btn_disabled := True, wd_disabled := False,
              submit_state := ''EMBEDDING'', found_store := Str ''needed''\<rparr>)
   \<and> fire (env_of (initialize (Inl OtherException) False []) ''Tue Nov  3 20:15:00 2026''
             (\<lambda>r t n. Inr []))
        Wd_job (ex_page\<lparr>cached_lengths := [], btn_disabled := True, wd_disabled := False,
              submit_state := ''EMBEDDING'', found_store := Str ''needed''\<rparr>) =
       Inr (ex_page\<lparr>cached_lengths := [], btn_disabled := True, wd_disabled := False,
              wd_interval := 200, submit_state := ''FAILED'',
              found_store := Str ''not found''\<rparr>)
   \<and> alert_no_solver True (init_client (initialize (Inl OtherException) True [])) = False
   \<and> fire (env_of (initialize (Inl OtherException) True []) ''Tue Nov  3 20:15:00 2026''
             (\<lambda>r t n. Inr []))
        Wd_job (ex_page\<lparr>qpu_value := classical_name, btn_disabled := True,
              wd_disabled := False, submit_state := ''SUBMITTED'', submit_time := ''SA''\<rparr>) =
       Inl AttributeError"
  by (simp add: initialize_def alert_no_solver_def env_of_def fire_def simulate_def
        write_outputs_def get_job_status_def ex_page_def classical_name_def
        find_one_to_one_embedding_def)

text \<open>
  Whatever the configuration of the client yields, the initial status is READY and
  the client is not false, so \<^verbatim>\<open>alert_no_solver\<close> returns \<^verbatim>\<open>False\<close> on every call.
\<close>

lemma initialize_always_ready:
  "init_job_status (initialize from_config use_classical mock_edges) = ''READY''
   \<and> client_truthy (init_client (initialize from_config use_classical mock_edges))
   \<and> \<not> alert_no_solver triggered_by_btn
          (init_client (initialize from_config use_classical mock_edges))"
  by (simp add: initialize_def alert_no_solver_def Let_def split: sum.splits)

section \<open>The ring model\<close>

lemma add_bias_fresh:
  "\<forall>((a, b), y) \<in> set qs. \<not> ((a = u \<and> b = v) \<or> (a = v \<and> b = u)) \<Longrightarrow>
   add_bias u v x qs = qs @ [((u, v), x)]"
  by (induction qs) auto

lemma ring_keys_fresh:
  assumes "3 \<le> N" "k < N"
  shows "\<forall>((a, b), y) \<in> set (map (\<lambda>i. ((i, (i + 1) mod N), J)) [0..<k]).
           \<not> ((a = k \<and> b = (k + 1) mod N) \<or> (a = (k + 1) mod N \<and> b = k))"
proof -
  have "\<not> ((i = k \<and> (i + 1) mod N = (k + 1) mod N) \<or> (i = (k + 1) mod N \<and> (i + 1) mod N = k))"
    if "i < k" for i
  proof (cases "k + 1 = N")
    case True
    with that assms show ?thesis by auto
  next
    case False
    with assms have "(k + 1) mod N = k + 1" by simp
    with that show ?thesis by auto
  qed
  then show ?thesis by auto
qed

lemma ring_vars_step:
  assumes "3 \<le> N" "k < N"
  shows "variables (add_variable ((k + 1) mod N) (add_variable k (ring_upto N J k)))
           = [0..<min (k + 2) N]"
proof (cases "k + 1 = N")
  case True
  with assms show ?thesis
    by (auto simp: ring_upto_def add_variable_def min_def)
next
  case False
  with assms have m: "(k + 1) mod N = k + 1" by simp
  show ?thesis
  proof (cases "k = 0")
    case True
    with assms show ?thesis
      by (simp add: ring_upto_def add_variable_def upt_conv_Cons)
  next
    case k: False
    with assms False m show ?thesis
      by (simp add: ring_upto_def add_variable_def min_def)
  qed
qed

lemma ring_step:
  assumes "3 \<le> N" "k < N"
  shows "add_quadratic k ((k + 1) mod N) J (ring_upto N J k) = Inr (ring_upto N J (k + 1))"
proof -
  have ne: "k \<noteq> (k + 1) mod N"
  proof (cases "k + 1 = N")
    case True with assms show ?thesis by simp
  next
    case False with assms have "(k + 1) mod N = k + 1" by simp
    then show ?thesis by simp
  qed
  have q: "quadratic (add_variable ((k + 1) mod N) (add_variable k (ring_upto N J k)))
             = map (\<lambda>i. ((i, (i + 1) mod N), J)) [0..<k]"
    by (simp add: add_variable_def ring_upto_def)
  have b: "add_bias k ((k + 1) mod N) J (map (\<lambda>i. ((i, (i + 1) mod N), J)) [0..<k])
             = map (\<lambda>i. ((i, (i + 1) mod N), J)) [0..<k + 1]"
    using add_bias_fresh [OF ring_keys_fresh [OF assms]] by simp
  have "add_quadratic k ((k + 1) mod N) J (ring_upto N J k) =
          Inr \<lparr>variables = [0..<min (k + 2) N],
               quadratic = map (\<lambda>i. ((i, (i + 1) mod N), J)) [0..<k + 1]\<rparr>"
    using ne ring_vars_step [OF assms, of J] q b
    by (simp add: add_quadratic_def Let_def)
  then show ?thesis by (simp add: ring_upto_def)
qed

lemma ring_run:
  assumes "3 \<le> N"
  shows "k \<le> N \<Longrightarrow> add_ring [k..<N] N J (ring_upto N J k) = Inr (ring_upto N J N)"
proof (induction "N - k" arbitrary: k)
  case 0
  then show ?case by simp
next
  case (Suc d)
  then have lt: "k < N" by simp
  from Suc have "d = N - (k + 1)" "k + 1 \<le> N" by simp_all
  from Suc.hyps(1) [OF this] have "add_ring [k + 1..<N] N J (ring_upto N J (k + 1)) = Inr (ring_upto N J N)" .
  with ring_step [OF assms lt, of J] lt show ?case
    by (simp add: upt_conv_Cons)
qed

lemma get_quadratic_member:
  "((u, v), y) \<in> set qs \<Longrightarrow>
   \<forall>((a, b), z) \<in> set qs. (a = u \<and> b = v) \<or> (a = v \<and> b = u) \<longrightarrow> z = y \<Longrightarrow>
   get_quadratic qs u v = Some y"
proof (induction qs)
  case Nil
  then show ?case by simp
next
  case (Cons q qs)
  obtain a b z where q: "q = ((a, b), z)" by (cases q) auto
  show ?case
  proof (cases "(a = u \<and> b = v) \<or> (a = v \<and> b = u)")
    case True
    with Cons.prems(2) q have "z = y" by auto
    with True q show ?thesis by auto
  next
    case False
    with Cons.prems(1) q have "((u, v), y) \<in> set qs" by auto
    moreover from Cons.prems(2)
    have "\<forall>((a, b), z) \<in> set qs. (a = u \<and> b = v) \<or> (a = v \<and> b = u) \<longrightarrow> z = y"
      by simp
    ultimately have "get_quadratic qs u v = Some y" by (rule Cons.IH)
    with False q show ?thesis by auto
  qed
qed

lemma get_quadratic_ring:
  assumes "i < N"
  shows "get_quadratic (map (\<lambda>i. ((i, (i + 1) mod N), J)) [0..<N]) i ((i + 1) mod N) = Some J"
  using assms by (intro get_quadratic_member) auto

lemma ring_pair_inj:
  fixes N i j :: nat
  assumes "3 \<le> N" "i < N" "j < N" "{i, (i + 1) mod N} = {j, (j + 1) mod N}"
  shows "i = j"
proof (rule ccontr)
  assume "i \<noteq> j"
  with assms(4) have a: "i = (j + 1) mod N" and b: "j = (i + 1) mod N"
    by (auto simp: doubleton_eq_iff)
  show False
  proof (cases "j + 1 = N")
    case True
    with a assms have "i = 0" by simp
    with b assms have "j = 1" by simp
    with True assms show False by simp
  next
    case False
    with assms have "(j + 1) mod N = j + 1" by simp
    with a have i: "i = j + 1" by simp
    show False
    proof (cases "i + 1 = N")
      case True
      with b have "j = 0" by simp
      with i True assms show False by simp
    next
      case False
      with assms have "(i + 1) mod N = i + 1" by simp
      with b i show False by simp
    qed
  qed
qed

lemma ring_pairs_distinct:
  assumes "3 \<le> N"
  shows "distinct (map (\<lambda>((a, b), y). {a, b}) (map (\<lambda>i. ((i, (i + 1) mod N), J)) [0..<N]))"
proof -
  have "inj_on (\<lambda>i. {i, (i + 1) mod N}) (set [0..<N])"
    using ring_pair_inj [OF assms] by (auto simp: inj_on_def)
  then have "distinct (map (\<lambda>i. {i, (i + 1) mod N}) [0..<N])"
    by (simp add: distinct_map)
  then show ?thesis by (simp add: comp_def)
qed

text \<open>
  C10, as stated, at 2 spins and at 1 spin. With 2 spins the loop adds the coupling
  of the pair (0, 1) and then that of (1, 0), which is the same pair: the model has
  one coupling, of strength 2 J. With 1 spin the only edge is (0, 0) and
  \<^verbatim>\<open>add_quadratic\<close> raises.
\<close>

theorem create_bqm_small_rings:
  "create_bqm 2 (-1) = Inr \<lparr>variables = [0, 1], quadratic = [((0, 1), -2)]\<rparr>
   \<and> create_bqm 1 (-1) = Inl ValueError"
  by (simp add: create_bqm_def upt_conv_Cons add_quadratic_def add_variable_def empty_bqm_def)

text \<open>
  C10, amended: for every number of spins \<open>N\<close> of at least 3 and every coupling
  strength \<open>J\<close>, \<^verbatim>\<open>create_bqm\<close> returns a model whose variables are \<open>0, \<dots>, N - 1\<close> and
  whose couplings are exactly the \<open>N\<close> entries \<open>(i, (i + 1) mod N)\<close> for \<open>i < N\<close>, on
  pairwise different pairs of variables, each of strength \<open>J\<close>.
\<close>

theorem create_bqm_ring:
  assumes "3 \<le> N"
  shows "\<exists>b. create_bqm N J = Inr b
           \<and> variables b = [0..<N]
           \<and> quadratic b = map (\<lambda>i. ((i, (i + 1) mod N), J)) [0..<N]
           \<and> length (variables b) = N \<and> length (quadratic b) = N
           \<and> distinct (map (\<lambda>((u, v), y). {u, v}) (quadratic b))
           \<and> (\<forall>i<N. get_quadratic (quadratic b) i ((i + 1) mod N) = Some J)"
proof -
  have "create_bqm N J =
          Inr \<lparr>variables = [0..<N], quadratic = map (\<lambda>i. ((i, (i + 1) mod N), J)) [0..<N]\<rparr>"
    using ring_run [OF assms, of 0 J] assms
    by (simp add: create_bqm_def ring_upto_def empty_bqm_def)
  with ring_pairs_distinct [OF assms, of J] get_quadratic_ring [of _ N J]
  show ?thesis by simp
qed

theorem create_bqm_ring_witness:
  "(3::nat) \<le> 4
   \<and> create_bqm 4 (-1) =
       Inr \<lparr>variables = [0, 1, 2, 3],
            quadratic = [((0, 1), -1), ((1, 2), -1), ((2, 3), -1), ((3, 0), -1)]\<rparr>"
proof -
  have h: "(3::nat) \<le> 4" by simp
  have u: "[0..<4] = [0, 1, 2, 3::nat]" by (simp add: upt_conv_Cons)
  from create_bqm_ring [OF h, of "-1"] obtain b where
    "create_bqm 4 (-1) = Inr b" "variables b = [0..<4]"
    "quadratic b = map (\<lambda>i. ((i, (i + 1) mod 4), -1)) [0..<4]"
    by blast
  then have "create_bqm 4 (-1) =
       Inr \<lparr>variables = [0, 1, 2, 3],
            quadratic = [((0, 1), -1), ((1, 2), -1), ((2, 3), -1), ((3, 0), -1)]\<rparr>"
    by (cases b) (simp add: u)
  with h show ?thesis by simp
qed

section \<open>Kink statistics\<close>

lemma nth_prepend_last:
  "row \<noteq> [] \<Longrightarrow> i < length row \<Longrightarrow>
   (last row # row) ! i = row ! ((i + length row - 1) mod length row)"
  by (cases i) (simp_all add: last_conv_nth)

lemma sign_switches_cyclic: "row \<noteq> [] \<Longrightarrow> sign_switches row = cyclic_diff row"
  by (rule nth_equalityI)
     (simp_all add: sign_switches_def np_diff_def cyclic_diff_def nth_prepend_last)

lemma count_nonzero_card:
  "count_nonzero xs = card {i. i < length xs \<and> xs ! i \<noteq> 0}"
  by (simp add: count_nonzero_def length_filter_conv_card)

lemma count_true_zero_card:
  "count_true (map (\<lambda>x. x = 0) xs) = card {i. i < length xs \<and> xs ! i = (0::int)}"
proof -
  have "{i. i < length xs \<and> map (\<lambda>x. x = 0) xs ! i} = {i. i < length xs \<and> xs ! i = 0}"
    by auto
  then show ?thesis
    by (simp add: count_true_def length_filter_conv_card)
qed

lemma sum_list_divide:
  "(\<Sum>c\<leftarrow>cs. real c / n) = real (sum_list cs) / n"
  by (induction cs) (simp_all add: add_divide_distrib)


lemma cyclic_diff_nth:
  "i < length row \<Longrightarrow>
   cyclic_diff row ! i = row ! i - row ! ((i + length row - 1) mod length row)"
  by (simp add: cyclic_diff_def)

lemma length_cyclic_diff [simp]: "length (cyclic_diff row) = length row"
  by (simp add: cyclic_diff_def)

lemma alternating_no_zero:
  assumes "alternating row" "i < length row"
  shows "cyclic_diff row ! i \<noteq> 0"
proof -
  let ?n = "length row"
  let ?j = "(i + ?n - 1) mod ?n"
  from assms(1) have ev: "even ?n" and s: "row ! 0 \<noteq> 0"
    and v: "\<And>k. k < ?n \<Longrightarrow> row ! k = (if even k then row ! 0 else - (row ! 0))"
    unfolding alternating_def by blast+
  from assms(2) have "0 < ?n" by auto
  then have j: "?j < ?n" by simp
  have par: "even ?j \<noteq> even i"
  proof (cases "i = 0")
    case True
    then have "?j = ?n - 1" using assms(2) by simp
    with ev True assms(2) show ?thesis by simp
  next
    case False
    then have "i + ?n - 1 = (i - 1) + ?n" by simp
    then have "?j = ((i - 1) + ?n) mod ?n" by (simp only:)
    also have "\<dots> = i - 1" using assms(2) by simp
    finally have "?j = i - 1" .
    with False show ?thesis by simp
  qed
  have "row ! i \<noteq> row ! ?j"
    using v [OF assms(2)] v [OF j] par s by (auto split: if_splits)
  then show ?thesis using assms(2) by (simp add: cyclic_diff_nth)
qed

lemma constant_all_zero:
  assumes "constant_row row" "i < length row"
  shows "cyclic_diff row ! i = 0"
proof -
  from assms(2) have "0 < length row" by auto
  then have "(i + length row - 1) mod length row < length row" by simp
  with assms show ?thesis by (simp add: cyclic_diff_nth constant_row_def)
qed

lemma sum_list_all_zero:
  "\<forall>x \<in> set xs. f x = (0::nat) \<Longrightarrow> sum_list (map f xs) = 0"
  by (induction xs) simp_all

text \<open>
  C1. For a sample array with at least one row and a ring of \<open>N > 0\<close> spins,
  \<^verbatim>\<open>kink_stats\<close> returns normally. The difference it takes of each row is the cyclic
  first difference (each element minus its cyclic predecessor). The count of a row
  is the number of places where that difference is not zero if \<open>J < 0\<close>, and the
  number of places where it is zero otherwise. The kink density is the average over
  the rows of count divided by \<open>N\<close> (floating-point values idealised as reals). If
  \<open>J \<ge> 0\<close> and every row alternates perfectly the density is 0; if \<open>J < 0\<close> and every
  row is constant the density is 0.
\<close>

theorem kink_stats_counts:
  assumes "wf_array a" and "0 < shape1 a" and "rows a \<noteq> []"
  shows "\<exists>counts d. kink_stats a J = Inr (counts, Fin d)
     \<and> map sign_switches (rows a) = map cyclic_diff (rows a)
     \<and> counts = map (\<lambda>r. if J < 0 then card {i. i < shape1 a \<and> cyclic_diff r ! i \<noteq> 0}
                            else card {i. i < shape1 a \<and> cyclic_diff r ! i = 0}) (rows a)
     \<and> d = (\<Sum>c\<leftarrow>counts. real c / real (shape1 a)) / real (length (rows a))
     \<and> (0 \<le> J \<and> (\<forall>r \<in> set (rows a). alternating r) \<longrightarrow> d = 0)
     \<and> (J < 0 \<and> (\<forall>r \<in> set (rows a). constant_row r) \<longrightarrow> d = 0)"
proof -
  let ?N = "shape1 a"
  let ?count = "\<lambda>r. if J < 0 then card {i. i < ?N \<and> cyclic_diff r ! i \<noteq> 0}
                      else card {i. i < ?N \<and> cyclic_diff r ! i = 0}"
  let ?counts = "map ?count (rows a)"
  let ?d = "(\<Sum>c\<leftarrow>?counts. real c / real ?N) / real (length (rows a))"
  have len: "length r = ?N" and ne: "r \<noteq> []" if "r \<in> set (rows a)" for r
    using that assms(1,2) by (auto simp: wf_array_def)
  have sw: "map sign_switches (rows a) = map cyclic_diff (rows a)"
    using ne by (simp add: sign_switches_cyclic)
  have cnz: "map count_nonzero (map cyclic_diff (rows a)) =
               map (\<lambda>r. card {i. i < ?N \<and> cyclic_diff r ! i \<noteq> 0}) (rows a)"
    using len by (simp add: count_nonzero_card)
  have cz: "map (\<lambda>d. count_true (map (\<lambda>x. x = 0) d)) (map cyclic_diff (rows a)) =
               map (\<lambda>r. card {i. i < ?N \<and> cyclic_diff r ! i = 0}) (rows a)"
    using len by (simp add: count_true_zero_card)
  have mean: "npf_div (np_mean cs) (Fin (real ?N)) =
                Fin ((\<Sum>c\<leftarrow>cs. real c / real ?N) / real (length (rows a)))"
    if "length cs = length (rows a)" for cs
  proof -
    from that assms(3) have "cs \<noteq> []" by auto
    with that assms(2) show ?thesis
      by (simp add: np_mean_def sum_list_divide)
  qed
  have c1: "map count_nonzero (map sign_switches (rows a)) =
               map (\<lambda>r. card {i. i < ?N \<and> cyclic_diff r ! i \<noteq> 0}) (rows a)"
    by (simp only: sw cnz)
  have c2: "map (\<lambda>d. count_true (map (\<lambda>x. x = 0) d)) (map sign_switches (rows a)) =
               map (\<lambda>r. card {i. i < ?N \<and> cyclic_diff r ! i = 0}) (rows a)"
    by (simp only: sw cz)
  have run: "kink_stats a J = Inr (?counts, Fin ?d)"
  proof (cases "J < 0")
    case True
    have "kink_stats a J =
            Inr (map count_nonzero (map sign_switches (rows a)),
                 npf_div (np_mean (map count_nonzero (map sign_switches (rows a))))
                   (Fin (real ?N)))"
      using True assms(2) by (simp add: kink_stats_def Let_def del: map_map)
    also have "\<dots> = Inr (map (\<lambda>r. card {i. i < ?N \<and> cyclic_diff r ! i \<noteq> 0}) (rows a),
                 Fin ((\<Sum>c\<leftarrow>map (\<lambda>r. card {i. i < ?N \<and> cyclic_diff r ! i \<noteq> 0}) (rows a).
                         real c / real ?N) / real (length (rows a))))"
      unfolding c1 by (simp only: mean length_map)
    finally show ?thesis using True by simp
  next
    case False
    have "kink_stats a J =
            Inr (map (\<lambda>d. count_true (map (\<lambda>x. x = 0) d)) (map sign_switches (rows a)),
                 npf_div (np_mean (map (\<lambda>d. count_true (map (\<lambda>x. x = 0) d))
                                     (map sign_switches (rows a))))
                   (Fin (real ?N)))"
      using False assms(2) by (simp add: kink_stats_def Let_def del: map_map)
    also have "\<dots> = Inr (map (\<lambda>r. card {i. i < ?N \<and> cyclic_diff r ! i = 0}) (rows a),
                 Fin ((\<Sum>c\<leftarrow>map (\<lambda>r. card {i. i < ?N \<and> cyclic_diff r ! i = 0}) (rows a).
                         real c / real ?N) / real (length (rows a))))"
      unfolding c2 by (simp only: mean length_map)
    finally show ?thesis using False by simp
  qed
  have alt: "?d = 0" if "0 \<le> J" and "\<forall>r \<in> set (rows a). alternating r"
  proof -
    have "?count r = 0" if "r \<in> set (rows a)" for r
    proof -
      have "{i. i < ?N \<and> cyclic_diff r ! i = 0} = {}"
        using alternating_no_zero [of r] \<open>\<forall>r \<in> set (rows a). alternating r\<close> that len [OF that]
        by auto
      with \<open>0 \<le> J\<close> show ?thesis by simp
    qed
    then have "sum_list ?counts = 0" by (intro sum_list_all_zero) blast
    moreover have "(\<Sum>c\<leftarrow>?counts. real c / real ?N) = real (sum_list ?counts) / real ?N"
      by (rule sum_list_divide)
    ultimately have "(\<Sum>c\<leftarrow>?counts. real c / real ?N) = 0" by (simp only: of_nat_0 div_0)
    then show ?thesis by (simp only: div_0)
  qed
  have const: "?d = 0" if "J < 0" and "\<forall>r \<in> set (rows a). constant_row r"
  proof -
    have "?count r = 0" if "r \<in> set (rows a)" for r
    proof -
      have "{i. i < ?N \<and> cyclic_diff r ! i \<noteq> 0} = {}"
        using constant_all_zero [of r] \<open>\<forall>r \<in> set (rows a). constant_row r\<close> that len [OF that]
        by auto
      with \<open>J < 0\<close> show ?thesis by simp
    qed
    then have "sum_list ?counts = 0" by (intro sum_list_all_zero) blast
    moreover have "(\<Sum>c\<leftarrow>?counts. real c / real ?N) = real (sum_list ?counts) / real ?N"
      by (rule sum_list_divide)
    ultimately have "(\<Sum>c\<leftarrow>?counts. real c / real ?N) = 0" by (simp only: of_nat_0 div_0)
    then show ?thesis by (simp only: div_0)
  qed
  show ?thesis
  proof (intro exI conjI impI)
    show "kink_stats a J = Inr (?counts, Fin ?d)" by (rule run)
    show "map sign_switches (rows a) = map cyclic_diff (rows a)" by (rule sw)
    show "?counts = ?counts" by (rule refl)
    show "?d = ?d" by (rule refl)
    show "?d = 0" if "0 \<le> J \<and> (\<forall>r \<in> set (rows a). alternating r)"
      using that alt by simp
    show "?d = 0" if "J < 0 \<and> (\<forall>r \<in> set (rows a). constant_row r)"
      using that const by simp
  qed
qed


lemma ex_alt_rows: "\<forall>r \<in> set (rows ex_alternating). alternating r"
  by (simp add: ex_alternating_def alternating_def All_less_Suc)

lemma ex_const_rows: "\<forall>r \<in> set (rows ex_constant). constant_row r"
  by (simp add: ex_constant_def constant_row_def All_less_Suc)

lemma ex_counts:
  "card {i. i < 4 \<and> cyclic_diff [1, 1, -1, 1] ! i \<noteq> 0} = 2"
  "card {i. i < 4 \<and> cyclic_diff [1, 1, 1, 1] ! i \<noteq> 0} = 0"
  "card {i. i < 4 \<and> cyclic_diff [1, -1, 1, -1] ! i \<noteq> 0} = 4"
proof -
  have a: "card {i. i < 4 \<and> cyclic_diff r ! i \<noteq> 0} = count_nonzero (sign_switches r)"
    if "length r = 4" for r
  proof -
    from that have "r \<noteq> []" by auto
    with that show ?thesis by (simp add: count_nonzero_card sign_switches_cyclic)
  qed
  show "card {i. i < 4 \<and> cyclic_diff [1, 1, -1, 1] ! i \<noteq> 0} = 2"
    by (simp add: a sign_switches_def np_diff_def count_nonzero_def)
  show "card {i. i < 4 \<and> cyclic_diff [1, 1, 1, 1] ! i \<noteq> 0} = 0"
    by (simp add: a sign_switches_def np_diff_def count_nonzero_def)
  show "card {i. i < 4 \<and> cyclic_diff [1, -1, 1, -1] ! i \<noteq> 0} = 4"
    by (simp add: a sign_switches_def np_diff_def count_nonzero_def)
qed

theorem kink_stats_counts_witness:
  "kink_stats ex_samples (-1) = Inr ([2, 0, 4], Fin (1 / 2))
   \<and> (\<exists>counts. kink_stats ex_alternating 1 = Inr (counts, Fin 0))
   \<and> (\<exists>counts. kink_stats ex_constant (-1) = Inr (counts, Fin 0))"
proof -
  have w: "wf_array ex_samples" "0 < shape1 ex_samples" "rows ex_samples \<noteq> []"
    and wa: "wf_array ex_alternating" "0 < shape1 ex_alternating" "rows ex_alternating \<noteq> []"
    and wc: "wf_array ex_constant" "0 < shape1 ex_constant" "rows ex_constant \<noteq> []"
    by (simp_all add: wf_array_def ex_samples_def ex_alternating_def ex_constant_def)
  from kink_stats_counts [OF w, of "-1"] obtain counts d where
    r: "kink_stats ex_samples (-1) = Inr (counts, Fin d)"
    and c: "counts = map (\<lambda>r. if (-1::real) < 0
                               then card {i. i < shape1 ex_samples \<and> cyclic_diff r ! i \<noteq> 0}
                               else card {i. i < shape1 ex_samples \<and> cyclic_diff r ! i = 0})
                      (rows ex_samples)"
    and d: "d = (\<Sum>c\<leftarrow>counts. real c / real (shape1 ex_samples)) / real (length (rows ex_samples))"
    by blast
  from c have c': "counts = [2, 0, 4]"
    by (simp add: ex_samples_def ex_counts)
  with d have "d = 1 / 2" by (simp add: ex_samples_def)
  with r c' have first: "kink_stats ex_samples (-1) = Inr ([2, 0, 4], Fin (1 / 2))" by simp
  from kink_stats_counts [OF wa, of 1] ex_alt_rows
  have second: "\<exists>counts. kink_stats ex_alternating 1 = Inr (counts, Fin 0)" by auto
  from kink_stats_counts [OF wc, of "-1"] ex_const_rows
  have third: "\<exists>counts. kink_stats ex_constant (-1) = Inr (counts, Fin 0)" by auto
  from first second third show ?thesis by simp
qed

section \<open>Theoretical kink density\<close>

lemma argmin_from_spec:
  assumes "length ys = i" "best < i" "ys ! best = v"
    and "\<forall>j<i. v \<le> ys ! j" and "\<forall>j<best. v < ys ! j"
  shows "argmin_from best v i xs < i + length xs
     \<and> (\<forall>j < i + length xs. (ys @ xs) ! argmin_from best v i xs \<le> (ys @ xs) ! j)
     \<and> (\<forall>j < argmin_from best v i xs. (ys @ xs) ! argmin_from best v i xs < (ys @ xs) ! j)"
  using assms
proof (induction xs arbitrary: best v i ys)
  case Nil
  then show ?case by auto
next
  case (Cons x xs)
  show ?case
  proof (cases "x < v")
    case True
    have l: "length (ys @ [x]) = Suc i" using Cons.prems(1) by simp
    have b: "i < Suc i" by simp
    have v: "(ys @ [x]) ! i = x" using Cons.prems(1) by (simp add: nth_append)
    have a1: "\<forall>j<Suc i. x \<le> (ys @ [x]) ! j"
      using Cons.prems True by (auto simp: nth_append less_Suc_eq intro: less_imp_le order_trans)
    have a2: "\<forall>j<i. x < (ys @ [x]) ! j"
      using Cons.prems True by (auto simp: nth_append)
    from Cons.IH [OF l b v a1 a2] True show ?thesis by simp
  next
    case False
    have l: "length (ys @ [x]) = Suc i" using Cons.prems(1) by simp
    have b: "best < Suc i" using Cons.prems(2) by simp
    have v: "(ys @ [x]) ! best = v" using Cons.prems by (simp add: nth_append)
    have a1: "\<forall>j<Suc i. v \<le> (ys @ [x]) ! j"
      using Cons.prems False by (auto simp: nth_append less_Suc_eq)
    have a2: "\<forall>j<best. v < (ys @ [x]) ! j"
      using Cons.prems by (auto simp: nth_append)
    from Cons.IH [OF l b v a1 a2] False show ?thesis by simp
  qed
qed

lemma idxmin_spec:
  assumes "xs \<noteq> []"
  shows "\<exists>i. idxmin xs = Inr i \<and> i < length xs
           \<and> (\<forall>j < length xs. xs ! i \<le> xs ! j) \<and> (\<forall>j < i. xs ! i < xs ! j)"
proof -
  from assms obtain x rest where xs: "xs = x # rest" by (cases xs) auto
  have "argmin_from 0 x 1 rest < 1 + length rest
     \<and> (\<forall>j < 1 + length rest. ([x] @ rest) ! argmin_from 0 x 1 rest \<le> ([x] @ rest) ! j)
     \<and> (\<forall>j < argmin_from 0 x 1 rest. ([x] @ rest) ! argmin_from 0 x 1 rest < ([x] @ rest) ! j)"
    by (rule argmin_from_spec) simp_all
  with xs show ?thesis by (simp add: idxmin_def)
qed


lemma npf_div_NaN [simp]: "npf_div x NaN = NaN"
  by (cases x) simp_all

lemma npf_mul_NaN [simp]: "npf_mul x NaN = NaN"
  by (cases x) simp_all

lemma npf_sub_NaN [simp]: "npf_sub x NaN = NaN"
  by (cases x) simp_all

lemma length_series_diff [simp]: "length (series_diff xs) = length xs"
  by (cases xs) (simp_all add: series_diff_def)

lemma series_diff_0: "xs \<noteq> [] \<Longrightarrow> series_diff xs ! 0 = NaN"
  by (cases xs) (simp_all add: series_diff_def)

lemma series_diff_pos:
  assumes "0 < i" "i < length xs"
  shows "series_diff xs ! i = Fin (xs ! i - xs ! (i - 1))"
proof -
  from assms obtain x rest where xs: "xs = x # rest" by (cases xs) auto
  from assms obtain k where i: "i = Suc k" by (cases i) auto
  with assms xs have k: "k < length rest" by simp
  have "series_diff xs ! i = map2 (\<lambda>a b. Fin (a - b)) rest (x # rest) ! k"
    using xs i by (simp add: series_diff_def)
  also have "\<dots> = Fin (rest ! k - (x # rest) ! k)"
    using k by simp
  finally show ?thesis using xs i by simp
qed

text \<open>What the function computes, with the critical index named.\<close>

lemma theoretical_kink_density_at:
  assumes "idxmin (map2 (\<lambda>a b. \<bar>a - b * \<bar>J\<bar>\<bar>) (map A_GHz sched) (map B_GHz sched)) = Inr i"
  shows "theoretical_kink_density ts J sched =
     Inr (map (\<lambda>t. npf_div (np_power_neg_half (t / 1000000000))
            (npf_mul (Fin (2 * pi)) (npf_sqrt (npf_mul (Fin 2)
               (npf_div (Fin (1000000000 * pi * map A_GHz sched ! i))
                  (npf_sub
                     (npf_div (map2 npf_div (series_diff (map B_GHz sched))
                                 (series_diff (map C_normalized sched)) ! i)
                        (Fin (map B_GHz sched ! i)))
                     (npf_div (map2 npf_div (series_diff (map A_GHz sched))
                                 (series_diff (map C_normalized sched)) ! i)
                        (Fin (map A_GHz sched ! i))))))))) ts)"
  using assms by (simp add: theoretical_kink_density_def Let_def)

lemma crossing_key:
  "i < length sched \<Longrightarrow>
   map2 (\<lambda>a b. \<bar>a - b * \<bar>J\<bar>\<bar>) (map A_GHz sched) (map B_GHz sched) ! i = crossing J sched i"
  by (simp add: crossing_def)

lemma critical_index:
  assumes "sched \<noteq> []"
  shows "\<exists>i. idxmin (map2 (\<lambda>a b. \<bar>a - b * \<bar>J\<bar>\<bar>) (map A_GHz sched) (map B_GHz sched)) = Inr i
           \<and> i < length sched
           \<and> (\<forall>j < length sched. crossing J sched i \<le> crossing J sched j)
           \<and> (\<forall>j < i. crossing J sched i < crossing J sched j)"
proof -
  let ?key = "map2 (\<lambda>a b. \<bar>a - b * \<bar>J\<bar>\<bar>) (map A_GHz sched) (map B_GHz sched)"
  have len: "length ?key = length sched" by simp
  with assms have "?key \<noteq> []" by (metis length_0_conv)
  from idxmin_spec [OF this] obtain i where
    i: "idxmin ?key = Inr i" "i < length ?key"
       "\<forall>j < length ?key. ?key ! i \<le> ?key ! j" "\<forall>j < i. ?key ! i < ?key ! j"
    by blast
  from i(2) len have il: "i < length sched" by simp
  have a: "crossing J sched i \<le> crossing J sched j" if "j < length sched" for j
    using i(3) that il len by (simp only: crossing_key [symmetric])
  have b: "crossing J sched i < crossing J sched j" if "j < i" for j
  proof -
    from that il have "j < length sched" by simp
    with i(4) that il show ?thesis by (simp only: crossing_key [symmetric])
  qed
  from i(1) il a b show ?thesis by blast
qed


lemma tag_A_at:
  assumes "0 < i" "i < length sched"
    and "C_normalized (sched ! i) \<noteq> C_normalized (sched ! (i - 1))"
  shows "map2 npf_div (series_diff (map A_GHz sched)) (series_diff (map C_normalized sched)) ! i
           = Fin (dA_dC sched i)"
proof -
  from assms(1,2) have p: "i - 1 < length sched" by simp
  have a: "series_diff (map A_GHz sched) ! i = Fin (A_GHz (sched ! i) - A_GHz (sched ! (i - 1)))"
    using assms(1,2) p by (simp add: series_diff_pos)
  have c: "series_diff (map C_normalized sched) ! i
             = Fin (C_normalized (sched ! i) - C_normalized (sched ! (i - 1)))"
    using assms(1,2) p by (simp add: series_diff_pos)
  have "map2 npf_div (series_diff (map A_GHz sched)) (series_diff (map C_normalized sched)) ! i
          = npf_div (series_diff (map A_GHz sched) ! i) (series_diff (map C_normalized sched) ! i)"
    using assms(2) by simp
  with a c assms(3) show ?thesis by (simp add: dA_dC_def)
qed

lemma tag_B_at:
  assumes "0 < i" "i < length sched"
    and "C_normalized (sched ! i) \<noteq> C_normalized (sched ! (i - 1))"
  shows "map2 npf_div (series_diff (map B_GHz sched)) (series_diff (map C_normalized sched)) ! i
           = Fin (dB_dC sched i)"
proof -
  from assms(1,2) have p: "i - 1 < length sched" by simp
  have a: "series_diff (map B_GHz sched) ! i = Fin (B_GHz (sched ! i) - B_GHz (sched ! (i - 1)))"
    using assms(1,2) p by (simp add: series_diff_pos)
  have c: "series_diff (map C_normalized sched) ! i
             = Fin (C_normalized (sched ! i) - C_normalized (sched ! (i - 1)))"
    using assms(1,2) p by (simp add: series_diff_pos)
  have "map2 npf_div (series_diff (map B_GHz sched)) (series_diff (map C_normalized sched)) ! i
          = npf_div (series_diff (map B_GHz sched) ! i) (series_diff (map C_normalized sched) ! i)"
    using assms(2) by simp
  with a c assms(3) show ?thesis by (simp add: dB_dC_def)
qed

lemma tag_at_0:
  assumes "sched \<noteq> []"
  shows "map2 npf_div (series_diff (map f sched)) (series_diff (map g sched)) ! 0 = NaN"
proof -
  from assms have l: "0 < length sched" by auto
  have "map2 npf_div (series_diff (map f sched)) (series_diff (map g sched)) ! 0
          = npf_div (series_diff (map f sched) ! 0) (series_diff (map g sched) ! 0)"
    using l by simp
  with assms show ?thesis by (simp add: series_diff_0)
qed

lemma rate_value:
  assumes "0 < i" "i < length sched"
    and "C_normalized (sched ! i) \<noteq> C_normalized (sched ! (i - 1))"
    and "A_GHz (sched ! i) \<noteq> 0" and "B_GHz (sched ! i) \<noteq> 0"
    and "rate_denominator_C sched i \<noteq> 0"
  shows "npf_div (Fin (1000000000 * pi * map A_GHz sched ! i))
           (npf_sub
              (npf_div (map2 npf_div (series_diff (map B_GHz sched))
                          (series_diff (map C_normalized sched)) ! i)
                 (Fin (map B_GHz sched ! i)))
              (npf_div (map2 npf_div (series_diff (map A_GHz sched))
                          (series_diff (map C_normalized sched)) ! i)
                 (Fin (map A_GHz sched ! i))))
         = Fin (rate_constant_C sched i)"
proof -
  have den: "npf_sub
              (npf_div (map2 npf_div (series_diff (map B_GHz sched))
                          (series_diff (map C_normalized sched)) ! i)
                 (Fin (map B_GHz sched ! i)))
              (npf_div (map2 npf_div (series_diff (map A_GHz sched))
                          (series_diff (map C_normalized sched)) ! i)
                 (Fin (map A_GHz sched ! i)))
            = Fin (rate_denominator_C sched i)"
    using assms(2,4,5)
    by (simp add: tag_A_at [OF assms(1-3)] tag_B_at [OF assms(1-3)] rate_denominator_C_def)
  show ?thesis
    unfolding den using assms(2,6) by (simp add: rate_constant_C_def mult_ac)
qed

lemma curve_value:
  assumes "0 < b" "0 < t"
  shows "npf_div (np_power_neg_half (t / 1000000000))
           (npf_mul (Fin (2 * pi)) (npf_sqrt (npf_mul (Fin 2) (Fin b))))
         = Fin ((t / 1000000000) powr (- 1 / 2) / (2 * pi * sqrt (2 * b)))"
proof -
  from assms(1) have s: "0 < sqrt (2 * b)" by simp
  then have nz: "2 * pi * sqrt (2 * b) \<noteq> 0" by simp
  from assms(1) have nn: "\<not> 2 * b < 0" by simp
  from assms(2) have tp: "\<not> t / 1000000000 < 0" "t / 1000000000 \<noteq> 0" by simp_all
  show ?thesis
    using nz nn tp by (simp add: np_power_neg_half_def)
qed


text \<open>
  C2, amended. For a schedule with at least one row, the critical index \<open>i\<close> used
  by \<^verbatim>\<open>theoretical_kink_density\<close> is the first row that minimises \<open>|A - B |J||\<close>. The
  derivatives are the differences of rows \<open>i\<close> and \<open>i - 1\<close> over the difference of their
  entries in the column \<^verbatim>\<open>'C (normalized)'\<close>, not over the difference of their normalized
  times. Where the quantities of the formula are defined at that row (it is not the
  first row, its \<open>C\<close> entry differs from the previous one, \<open>A\<close> and \<open>B\<close> are not zero there,
  the denominator \<open>B'/B - A'/A\<close> is not zero and \<open>b\<close> is positive) and the anneal times are
  positive, the function returns, for each anneal time \<open>t\<close> in nanoseconds, the value
  \<open>(t / 10\<^sup>9) powr (-1/2) / (2 \<pi> sqrt (2 b))\<close> with \<open>b = \<pi> (A 10\<^sup>9) / (B'/B - A'/A)\<close>.
  Floating-point values are idealised as reals.
\<close>

theorem theoretical_kink_density_formula:
  assumes "sched \<noteq> []"
  shows "\<exists>i. i < length sched
     \<and> (\<forall>j < length sched. crossing J sched i \<le> crossing J sched j)
     \<and> (\<forall>j < i. crossing J sched i < crossing J sched j)
     \<and> (0 < i \<and> C_normalized (sched ! i) \<noteq> C_normalized (sched ! (i - 1))
          \<and> A_GHz (sched ! i) \<noteq> 0 \<and> B_GHz (sched ! i) \<noteq> 0
          \<and> rate_denominator_C sched i \<noteq> 0 \<and> 0 < rate_constant_C sched i
          \<and> (\<forall>t \<in> set ts. 0 < t)
        \<longrightarrow> theoretical_kink_density ts J sched =
              Inr (map (\<lambda>t. Fin ((t / 1000000000) powr (- 1 / 2)
                                  / (2 * pi * sqrt (2 * rate_constant_C sched i)))) ts))"
proof -
  from critical_index [OF assms, of J] obtain i where
    i: "idxmin (map2 (\<lambda>a b. \<bar>a - b * \<bar>J\<bar>\<bar>) (map A_GHz sched) (map B_GHz sched)) = Inr i"
    and il: "i < length sched"
    and least: "\<forall>j < length sched. crossing J sched i \<le> crossing J sched j"
    and first: "\<forall>j < i. crossing J sched i < crossing J sched j"
    by blast
  have "theoretical_kink_density ts J sched =
          Inr (map (\<lambda>t. Fin ((t / 1000000000) powr (- 1 / 2)
                              / (2 * pi * sqrt (2 * rate_constant_C sched i)))) ts)"
    if h: "0 < i \<and> C_normalized (sched ! i) \<noteq> C_normalized (sched ! (i - 1))
          \<and> A_GHz (sched ! i) \<noteq> 0 \<and> B_GHz (sched ! i) \<noteq> 0
          \<and> rate_denominator_C sched i \<noteq> 0 \<and> 0 < rate_constant_C sched i
          \<and> (\<forall>t \<in> set ts. 0 < t)"
  proof -
    from h have b: "npf_div (Fin (1000000000 * pi * map A_GHz sched ! i))
           (npf_sub
              (npf_div (map2 npf_div (series_diff (map B_GHz sched))
                          (series_diff (map C_normalized sched)) ! i)
                 (Fin (map B_GHz sched ! i)))
              (npf_div (map2 npf_div (series_diff (map A_GHz sched))
                          (series_diff (map C_normalized sched)) ! i)
                 (Fin (map A_GHz sched ! i))))
         = Fin (rate_constant_C sched i)"
      using il by (intro rate_value) simp_all
    have "map (\<lambda>t. npf_div (np_power_neg_half (t / 1000000000))
                 (npf_mul (Fin (2 * pi)) (npf_sqrt (npf_mul (Fin 2) (Fin (rate_constant_C sched i)))))) ts
          = map (\<lambda>t. Fin ((t / 1000000000) powr (- 1 / 2)
                              / (2 * pi * sqrt (2 * rate_constant_C sched i)))) ts"
      using h by (intro map_cong refl curve_value) simp_all
    with theoretical_kink_density_at [OF i, of ts] b show ?thesis by (simp only:)
  qed
  with il least first show ?thesis by blast
qed

lemma ex_skewed_rate_s: "rate_constant_s ex_skewed_schedule 1 = pi * 1000000000"
  by (simp add: rate_constant_s_def dA_ds_def dB_ds_def ex_skewed_schedule_def)

lemma ex_skewed_rate_C: "rate_constant_C ex_skewed_schedule 1 = pi * 500000000"
  by (simp add: rate_constant_C_def rate_denominator_C_def dA_dC_def dB_dC_def
        ex_skewed_schedule_def)

lemma ex_skewed_index:
  "idxmin (map2 (\<lambda>a b. \<bar>a - b * \<bar>1\<bar>\<bar>) (map A_GHz ex_skewed_schedule)
             (map B_GHz ex_skewed_schedule)) = Inr 1"
  by (simp add: idxmin_def ex_skewed_schedule_def)

lemma ex_skewed_value:
  "theoretical_kink_density [4] 1 ex_skewed_schedule =
     Inr [Fin ((4 / 1000000000) powr (- 1 / 2) / (2 * pi * sqrt (2 * (pi * 500000000))))]"
proof -
  have r: "npf_div (Fin (1000000000 * pi * map A_GHz ex_skewed_schedule ! 1))
           (npf_sub
              (npf_div (map2 npf_div (series_diff (map B_GHz ex_skewed_schedule))
                          (series_diff (map C_normalized ex_skewed_schedule)) ! 1)
                 (Fin (map B_GHz ex_skewed_schedule ! 1)))
              (npf_div (map2 npf_div (series_diff (map A_GHz ex_skewed_schedule))
                          (series_diff (map C_normalized ex_skewed_schedule)) ! 1)
                 (Fin (map A_GHz ex_skewed_schedule ! 1))))
         = Fin (rate_constant_C ex_skewed_schedule 1)"
    by (rule rate_value)
       (simp_all add: ex_skewed_schedule_def rate_denominator_C_def dA_dC_def dB_dC_def)
  have c: "npf_div (np_power_neg_half (4 / 1000000000))
           (npf_mul (Fin (2 * pi)) (npf_sqrt (npf_mul (Fin 2) (Fin (pi * 500000000)))))
         = Fin ((4 / 1000000000) powr (- 1 / 2) / (2 * pi * sqrt (2 * (pi * 500000000))))"
    by (rule curve_value) simp_all
  from theoretical_kink_density_at [OF ex_skewed_index, of "[4]"] r
  have "theoretical_kink_density [4] 1 ex_skewed_schedule =
     Inr [npf_div (np_power_neg_half (4 / 1000000000))
           (npf_mul (Fin (2 * pi)) (npf_sqrt (npf_mul (Fin 2) (Fin (rate_constant_C ex_skewed_schedule 1)))))]"
    by (simp only: list.map)
  then show ?thesis by (simp only: ex_skewed_rate_C c)
qed

lemma curve_differs:
  "(4 / 1000000000) powr (- 1 / 2) / (2 * pi * sqrt (2 * (pi * 500000000)))
     \<noteq> (4 / 1000000000) powr (- 1 / 2) / (2 * pi * sqrt (2 * (pi * 1000000000 :: real)))"
proof
  assume e: "(4 / 1000000000) powr (- 1 / 2) / (2 * pi * sqrt (2 * (pi * 500000000)))
     = (4 / 1000000000) powr (- 1 / 2) / (2 * pi * sqrt (2 * (pi * 1000000000 :: real)))"
  have x: "(4 / 1000000000 :: real) powr (- 1 / 2) \<noteq> 0" by simp
  from e x have "2 * pi * sqrt (2 * (pi * 500000000)) = 2 * pi * sqrt (2 * (pi * 1000000000))"
    by (simp only: divide_cancel_left) simp
  then have "sqrt (2 * (pi * 500000000)) = sqrt (2 * (pi * 1000000000))"
    by simp
  then have "2 * (pi * 500000000) = 2 * (pi * 1000000000)"
    by (simp only: real_sqrt_eq_iff)
  then show False by simp
qed

text \<open>
  C2, as stated, at a schedule whose \<^verbatim>\<open>'C (normalized)'\<close> column is half the normalized
  time. Row 1 is the critical row (\<open>A = B |J|\<close> there). The function returns the curve for
  \<open>b = \<pi> 10\<^sup>9 / 2\<close>, the derivatives being taken over \<open>C\<close>; with the derivatives taken over
  the normalized time the rate constant is \<open>\<pi> 10\<^sup>9\<close>, and the curve for it is another value.
\<close>

theorem derivative_is_not_by_time:
  "theoretical_kink_density [4] 1 ex_skewed_schedule =
     Inr [Fin ((4 / 1000000000) powr (- 1 / 2) / (2 * pi * sqrt (2 * (pi * 500000000))))]
   \<and> rate_constant_s ex_skewed_schedule 1 = pi * 1000000000
   \<and> theoretical_kink_density [4] 1 ex_skewed_schedule \<noteq>
     Inr [Fin ((4 / 1000000000) powr (- 1 / 2)
               / (2 * pi * sqrt (2 * rate_constant_s ex_skewed_schedule 1)))]"
  using curve_differs by (simp only: ex_skewed_value ex_skewed_rate_s) simp

text \<open>
  C8, amended. \<^verbatim>\<open>theoretical_kink_density\<close> checks nothing and signals nothing: for
  every schedule with at least one row, every \<open>J\<close> and all anneal times it returns
  normally, one value for each anneal time; and when the first row already attains the
  minimum of \<open>|A - B |J||\<close>, as it does when the \<open>A\<close> and \<open>B\<close> columns are constant, every
  value returned is NaN, the discrete derivative being undefined at the first row.
\<close>

theorem theoretical_kink_density_no_signal:
  assumes "sched \<noteq> []"
  shows "\<exists>out. theoretical_kink_density ts J sched = Inr out \<and> length out = length ts
     \<and> ((\<forall>j < length sched. crossing J sched 0 \<le> crossing J sched j)
          \<longrightarrow> out = replicate (length ts) NaN)
     \<and> ((\<forall>r \<in> set sched. A_GHz r = A_GHz (hd sched) \<and> B_GHz r = B_GHz (hd sched))
          \<longrightarrow> out = replicate (length ts) NaN)"
proof -
  from critical_index [OF assms, of J] obtain i where
    i: "idxmin (map2 (\<lambda>a b. \<bar>a - b * \<bar>J\<bar>\<bar>) (map A_GHz sched) (map B_GHz sched)) = Inr i"
    and il: "i < length sched"
    and first: "\<forall>j < i. crossing J sched i < crossing J sched j"
    by blast
  note run = theoretical_kink_density_at [OF i, of ts]
  have nan: "theoretical_kink_density ts J sched = Inr (replicate (length ts) NaN)"
    if "\<forall>j < length sched. crossing J sched 0 \<le> crossing J sched j"
  proof -
    have "i = 0"
    proof (rule ccontr)
      assume "i \<noteq> 0"
      with first have "crossing J sched i < crossing J sched 0" by simp
      moreover from that il have "crossing J sched 0 \<le> crossing J sched i" by simp
      ultimately show False by simp
    qed
    with run show ?thesis
      by (simp add: tag_at_0 [OF assms] map_replicate_const)
  qed
  have flat: "\<forall>j < length sched. crossing J sched 0 \<le> crossing J sched j"
    if "\<forall>r \<in> set sched. A_GHz r = A_GHz (hd sched) \<and> B_GHz r = B_GHz (hd sched)"
  proof (intro allI impI)
    fix j assume j: "j < length sched"
    from assms have z: "0 < length sched" by auto
    from j have "sched ! j \<in> set sched" by (rule nth_mem)
    with that have "A_GHz (sched ! j) = A_GHz (hd sched)" "B_GHz (sched ! j) = B_GHz (hd sched)"
      by blast+
    moreover from z have "sched ! 0 \<in> set sched" by (rule nth_mem)
    with that have "A_GHz (sched ! 0) = A_GHz (hd sched)" "B_GHz (sched ! 0) = B_GHz (hd sched)"
      by blast+
    ultimately show "crossing J sched 0 \<le> crossing J sched j"
      by (simp add: crossing_def)
  qed
  from run obtain out where out: "theoretical_kink_density ts J sched = Inr out"
    and len: "length out = length ts"
    by simp
  from out nan
  have a: "(\<forall>j < length sched. crossing J sched 0 \<le> crossing J sched j)
             \<longrightarrow> out = replicate (length ts) NaN"
    by simp
  from out nan flat
  have b: "(\<forall>r \<in> set sched. A_GHz r = A_GHz (hd sched) \<and> B_GHz r = B_GHz (hd sched))
             \<longrightarrow> out = replicate (length ts) NaN"
    by (simp del: ball_simps)
  from out len a b show ?thesis by blast
qed

text \<open>
  C8, as stated, at a schedule with constant \<open>A\<close> and \<open>B\<close> columns: the function
  returns NaN for each anneal time; it does not signal a failure.
\<close>

theorem flat_schedule_returns_nan:
  "theoretical_kink_density [5, 10] 1 ex_flat_schedule = Inr [NaN, NaN]"
  by (simp add: theoretical_kink_density_def ex_flat_schedule_def idxmin_def series_diff_def)


lemma ex_schedule_crossing:
  "crossing 1 ex_schedule 0 = 2" "crossing 1 ex_schedule 1 = 0" "crossing 1 ex_schedule 2 = 3"
  by (simp_all add: crossing_def ex_schedule_def)

lemma ex_schedule_rate: "rate_constant_C ex_schedule 1 = pi * 1000000000"
  by (simp add: rate_constant_C_def rate_denominator_C_def dA_dC_def dB_dC_def
        ex_schedule_def)

theorem theoretical_kink_density_formula_witness:
  "theoretical_kink_density [4, 100] 1 ex_schedule =
     Inr [Fin ((4 / 1000000000) powr (- 1 / 2) / (2 * pi * sqrt (2 * (pi * 1000000000)))),
          Fin ((100 / 1000000000) powr (- 1 / 2) / (2 * pi * sqrt (2 * (pi * 1000000000))))]"
proof -
  have ne: "ex_schedule \<noteq> []" by (simp add: ex_schedule_def)
  have len: "length ex_schedule = 3" by (simp add: ex_schedule_def)
  from theoretical_kink_density_formula [OF ne, of 1 "[4, 100]"] obtain i where
    il: "i < length ex_schedule"
    and least: "\<forall>j < length ex_schedule. crossing 1 ex_schedule i \<le> crossing 1 ex_schedule j"
    and run: "0 < i \<and> C_normalized (ex_schedule ! i) \<noteq> C_normalized (ex_schedule ! (i - 1))
          \<and> A_GHz (ex_schedule ! i) \<noteq> 0 \<and> B_GHz (ex_schedule ! i) \<noteq> 0
          \<and> rate_denominator_C ex_schedule i \<noteq> 0 \<and> 0 < rate_constant_C ex_schedule i
          \<and> (\<forall>t \<in> set [4, 100::real]. 0 < t)
        \<longrightarrow> theoretical_kink_density [4, 100] 1 ex_schedule =
              Inr (map (\<lambda>t. Fin ((t / 1000000000) powr (- 1 / 2)
                                  / (2 * pi * sqrt (2 * rate_constant_C ex_schedule i)))) [4, 100])"
    by blast
  from least len have "crossing 1 ex_schedule i \<le> crossing 1 ex_schedule 1" by simp
  then have le: "crossing 1 ex_schedule i \<le> 0" by (simp only: ex_schedule_crossing)
  from il len have "i = 0 \<or> i = 1 \<or> i = 2" by arith
  with le have i1: "i = 1" by (auto simp: ex_schedule_crossing)
  have hyp: "0 < (1::nat) \<and> C_normalized (ex_schedule ! 1) \<noteq> C_normalized (ex_schedule ! (1 - 1))
          \<and> A_GHz (ex_schedule ! 1) \<noteq> 0 \<and> B_GHz (ex_schedule ! 1) \<noteq> 0
          \<and> rate_denominator_C ex_schedule 1 \<noteq> 0 \<and> 0 < rate_constant_C ex_schedule 1
          \<and> (\<forall>t \<in> set [4, 100::real]. 0 < t)"
  proof -
    have "0 < rate_constant_C ex_schedule 1" by (simp only: ex_schedule_rate) simp
    moreover have "rate_denominator_C ex_schedule 1 \<noteq> 0"
      by (simp add: rate_denominator_C_def dA_dC_def dB_dC_def ex_schedule_def)
    moreover have "C_normalized (ex_schedule ! 1) \<noteq> C_normalized (ex_schedule ! (1 - 1))
          \<and> A_GHz (ex_schedule ! 1) \<noteq> 0 \<and> B_GHz (ex_schedule ! 1) \<noteq> 0"
      by (simp add: ex_schedule_def)
    ultimately show ?thesis by simp
  qed
  from run i1 have "0 < (1::nat) \<and> C_normalized (ex_schedule ! 1) \<noteq> C_normalized (ex_schedule ! (1 - 1))
          \<and> A_GHz (ex_schedule ! 1) \<noteq> 0 \<and> B_GHz (ex_schedule ! 1) \<noteq> 0
          \<and> rate_denominator_C ex_schedule 1 \<noteq> 0 \<and> 0 < rate_constant_C ex_schedule 1
          \<and> (\<forall>t \<in> set [4, 100::real]. 0 < t)
        \<longrightarrow> theoretical_kink_density [4, 100] 1 ex_schedule =
              Inr (map (\<lambda>t. Fin ((t / 1000000000) powr (- 1 / 2)
                                  / (2 * pi * sqrt (2 * rate_constant_C ex_schedule 1)))) [4, 100])"
    by (simp only:)
  from this hyp have "theoretical_kink_density [4, 100] 1 ex_schedule =
              Inr (map (\<lambda>t. Fin ((t / 1000000000) powr (- 1 / 2)
                                  / (2 * pi * sqrt (2 * rate_constant_C ex_schedule 1)))) [4, 100])"
    by (rule mp)
  then show ?thesis unfolding ex_schedule_rate by simp
qed

theorem theoretical_kink_density_no_signal_witness:
  "theoretical_kink_density [2, 350] 1 ex_first_row_schedule = Inr [NaN, NaN]
   \<and> theoretical_kink_density [100] (- 7 / 5) ex_flat_schedule = Inr [NaN]"
proof -
  have ne: "ex_first_row_schedule \<noteq> []" "ex_flat_schedule \<noteq> []"
    by (simp_all add: ex_first_row_schedule_def ex_flat_schedule_def)
  have h1: "\<forall>j < length ex_first_row_schedule.
              crossing 1 ex_first_row_schedule 0 \<le> crossing 1 ex_first_row_schedule j"
    by (simp add: ex_first_row_schedule_def crossing_def All_less_Suc)
  have h2: "\<forall>r \<in> set ex_flat_schedule.
              A_GHz r = A_GHz (hd ex_flat_schedule) \<and> B_GHz r = B_GHz (hd ex_flat_schedule)"
    by (simp add: ex_flat_schedule_def)
  from theoretical_kink_density_no_signal [OF ne(1), of "[2, 350]" 1] h1
  have a: "theoretical_kink_density [2, 350] 1 ex_first_row_schedule = Inr [NaN, NaN]"
    by auto
  from theoretical_kink_density_no_signal [OF ne(2), of "[100]" "- 7 / 5"] h2
  have b: "theoretical_kink_density [100] (- 7 / 5) ex_flat_schedule = Inr [NaN]"
    by auto
  from a b show ?thesis by simp
qed

section \<open>The extrapolation fit\<close>









end
